theory Spec2Isabelle
  imports Complex_Main
begin

section \<open>The assets demo: a scene script and its render loop\<close>

text \<open>
  The program is \<^verbatim>\<open>demo_IRR_assets.py\<close>: a straight-line script that creates bodies,
  a particle cloud and visual shapes through the physics engine's Python binding, adds them
  to one physical system, opens a viewer and then runs
  \<^verbatim>\<open>while vis.Run(): BeginScene; Render; addStaticText; EndScene; DoStepDynamics(0.01)\<close>.

  The script is embedded statement by statement. Python objects that are held by reference
  (bodies, the particle cloud, shapes, materials, line geometries) live in a store, and a
  Python variable is a binding from its name to an address of the store, so that sharing one
  object between several owners is visible. Plain values (vectors, rotations, frames,
  colours) are HOL values. Floating-point numbers are read as real numbers.
\<close>

subsection \<open>Values\<close>

type_synonym ChVectorD = "real \<times> real \<times> real"

datatype ChQuaternionD = ChQuaternionD real real real real

definition QUNIT :: ChQuaternionD where
  "QUNIT = ChQuaternionD 1 0 0 0"

text \<open>A position and a rotation: the engine's \<^verbatim>\<open>ChFrameD\<close> and \<^verbatim>\<open>ChCoordsysD\<close>.\<close>

datatype ChFrameD = ChFrameD ChVectorD ChQuaternionD

text \<open>\<^verbatim>\<open>ChCoordsysD(v)\<close>, with the rotation left at its default.\<close>

definition ChCoordsysD :: "ChVectorD \<Rightarrow> ChFrameD" where
  "ChCoordsysD v = ChFrameD v QUNIT"

text \<open>The \<^verbatim>\<open>+\<close> of two vectors.\<close>

fun vadd :: "ChVectorD \<Rightarrow> ChVectorD \<Rightarrow> ChVectorD" where
  "vadd (a, b, c) (x, y, z) = (a + x, b + y, c + z)"

datatype ChColor = ChColor real real real

datatype recti = recti int int int int

definition CH_C_PI_2 :: real where
  "CH_C_PI_2 = pi / 2"

definition CH_C_DEG_TO_RAD :: real where
  "CH_C_DEG_TO_RAD = pi / 180"

datatype collision_system_type = Type_BULLET

subsection \<open>Objects of the store\<close>

type_synonym ref = nat

datatype entity_kind =
    RigidBody
  | ConvexHullBody "ChVectorD list" real bool bool ref
  | ParticleCloud

text \<open>
  An entity of the scene: a rigid body (\<^verbatim>\<open>ChBody\<close>, \<^verbatim>\<open>ChBodyEasyConvexHullAuxRef\<close>) or a
  particle cloud (\<^verbatim>\<open>ChParticleCloud\<close>). A cloud has one collision-shape list, one mass and
  one inertia for all its members; \<open>particles\<close> holds one pose for each member. \<open>None\<close> in
  \<open>mass\<close> and \<open>inertia\<close> means that the script has not set the value.
\<close>

record entity =
  kind :: entity_kind
  fixed :: bool
  pose :: ChFrameD
  particles :: "ChFrameD list"
  mass :: "real option"
  inertia :: "ChVectorD option"
  collide :: bool
  collision_shapes :: "(ref \<times> ChFrameD option) list"

datatype collision_shape =
    ChCollisionShapeBox_obj ref real real real
  | ChCollisionShapeSphere_obj ref real

datatype line =
    ChLineSegment_obj ChVectorD ChVectorD
  | ChLineArc_obj ChFrameD real real real
  | ChLineNurbs_obj "(nat \<times> ChVectorD list) option"

datatype geometry =
    Box real real real
  | Sphere real
  | Cylinder real real
  | Path "ref list"
  | Line "ref option"
  | TriangleMesh "(ChVectorD \<times> ChVectorD \<times> ChVectorD) list"
  | ModelFile "string option"

record visual_shape =
  geometry :: geometry
  color :: "ChColor option"
  materials :: "ref list"
  texture :: "string option"

record visual_material =
  diffuse_color :: "ChColor option"

datatype obj =
    Entity entity
  | VisualShape visual_shape
  | VisualMaterial visual_material
  | ContactMaterial
  | CollisionShape collision_shape
  | LineGeometry line

subsection \<open>The viewer, the events and the program state\<close>

datatype widget = StaticText string recti

record visual_system =
  attached :: bool
  window_size :: "(nat \<times> nat) option"
  window_title :: "string option"
  initialized :: bool
  logo :: "string option"
  skybox :: bool
  cameras :: "ChVectorD list"
  typical_lights :: bool
  in_scene :: bool
  gui :: "widget list"
  run_calls :: nat

text \<open>What a render sees: the entities of the scene, in scene order, as they are stored.\<close>

type_synonym world = "(ref \<times> obj option) list"

datatype event =
    Printed string
  | FrameBegin
  | FrameRendered world
  | WidgetAdded widget
  | FrameEnd
  | PhysicsStepped real

datatype error =
    DuplicateIdError
  | NotFoundError
  | DanglingEntityError
  | InvalidTimestepError
  | NameError string
  | AttributeError
  | TypeError

text \<open>
  \<open>scene\<close> is the content of the one physical system \<^verbatim>\<open>sys\<close>, in insertion order;
  \<open>registry\<close> gives each owner its visual shapes with their local frames, in attachment
  order; \<open>vis\<close> is the one viewer; \<open>trace\<close> is what has happened so far.
\<close>

record state =
  vars :: "string \<Rightarrow> ref option"
  heap :: "ref \<Rightarrow> obj option"
  next_ref :: ref
  random_calls :: nat
  collision_system :: "collision_system_type option"
  scene :: "ref list"
  registry :: "ref \<Rightarrow> (ref \<times> ChFrameD option) list"
  vis :: visual_system
  trace :: "event list"

text \<open>
  What the script gets from outside: the engine's numeric routines, its random numbers
  (\<open>ext_ChRandom k\<close> is the result of the \<open>k\<close>-th call), its data directory, its time
  integrator, and the viewer's answers to \<^verbatim>\<open>vis.Run()\<close> (\<open>ext_Run k\<close> is the answer to the
  \<open>k\<close>-th call). \<open>ext_integrate dt w r None\<close> is the pose of entity \<open>r\<close> after one tick of
  size \<open>dt\<close> from the world \<open>w\<close>, and \<open>ext_integrate dt w r (Some k)\<close> that of its
  \<open>k\<close>-th particle.
\<close>

record env =
  ext_Q_from_AngX :: "real \<Rightarrow> ChQuaternionD"
  ext_Q_from_AngY :: "real \<Rightarrow> ChQuaternionD"
  ext_rotate :: "ChQuaternionD \<Rightarrow> ChVectorD \<Rightarrow> ChVectorD"
  ext_ChRandom :: "nat \<Rightarrow> real"
  ext_GetChronoDataFile :: "string \<Rightarrow> string"
  ext_Move :: "ChVectorD \<Rightarrow> ChFrameD \<Rightarrow> ChFrameD"
  ext_integrate :: "real \<Rightarrow> world \<Rightarrow> ref \<Rightarrow> nat option \<Rightarrow> ChFrameD"
  ext_Run :: "nat \<Rightarrow> bool"

type_synonym step = "state \<Rightarrow> error + state"

subsection \<open>Running statements in sequence\<close>

text \<open>A raised error ends the script: the statements after it are not run.\<close>

fun run :: "step list \<Rightarrow> state \<Rightarrow> error + state" where
  "run [] s = Inr s"
| "run (c # cs) s = (case c s of Inl e \<Rightarrow> Inl e | Inr s' \<Rightarrow> run cs s')"

text \<open>\<^verbatim>\<open>for j in range(n): body(j)\<close>, unrolled.\<close>

definition for_range :: "nat \<Rightarrow> (nat \<Rightarrow> step list) \<Rightarrow> step list" where
  "for_range n body = concat (map body [0..<n])"

subsection \<open>Variables and the store\<close>

text \<open>\<^verbatim>\<open>x = C(...)\<close>: a new object at a fresh address, and \<open>x\<close> bound to it.\<close>

definition new :: "string \<Rightarrow> obj \<Rightarrow> step" where
  "new x v s = Inr (s\<lparr>vars := (vars s)(x \<mapsto> next_ref s),
                       heap := (heap s)(next_ref s \<mapsto> v),
                       next_ref := next_ref s + 1\<rparr>)"

text \<open>Reading a variable that is not bound raises \<^verbatim>\<open>NameError\<close>.\<close>

definition deref :: "string \<Rightarrow> (ref \<Rightarrow> step) \<Rightarrow> step" where
  "deref x k s = (case vars s x of None \<Rightarrow> Inl (NameError x) | Some r \<Rightarrow> k r s)"

text \<open>
  A method that writes to the object itself. \<open>f\<close> returns \<open>None\<close> where the object's
  class has no such method.
\<close>

definition update_at :: "ref \<Rightarrow> (obj \<Rightarrow> obj option) \<Rightarrow> step" where
  "update_at r f s =
     (case heap s r of
        None \<Rightarrow> Inl AttributeError
      | Some v \<Rightarrow> (case f v of
          None \<Rightarrow> Inl AttributeError
        | Some v' \<Rightarrow> Inr (s\<lparr>heap := (heap s)(r \<mapsto> v')\<rparr>)))"

definition update :: "string \<Rightarrow> (obj \<Rightarrow> obj option) \<Rightarrow> step" where
  "update x f = deref x (\<lambda>r. update_at r f)"

text \<open>
  A method with one object argument: the receiver is read first, and an argument of the
  wrong class raises \<^verbatim>\<open>TypeError\<close>.
\<close>

definition update_with ::
    "string \<Rightarrow> string \<Rightarrow> (obj \<Rightarrow> bool) \<Rightarrow> (ref \<Rightarrow> obj \<Rightarrow> obj option) \<Rightarrow> step" where
  "update_with x y ok f = deref x (\<lambda>r. deref y (\<lambda>q s.
     case heap s q of
       None \<Rightarrow> Inl TypeError
     | Some v \<Rightarrow> if ok v then update_at r (f q) s else Inl TypeError))"

fun is_collision_shape :: "obj \<Rightarrow> bool" where
  "is_collision_shape (CollisionShape c) = True"
| "is_collision_shape _ = False"

fun is_visual_shape :: "obj \<Rightarrow> bool" where
  "is_visual_shape (VisualShape sh) = True"
| "is_visual_shape _ = False"

fun is_visual_material :: "obj \<Rightarrow> bool" where
  "is_visual_material (VisualMaterial m) = True"
| "is_visual_material _ = False"

fun is_line :: "obj \<Rightarrow> bool" where
  "is_line (LineGeometry l) = True"
| "is_line _ = False"

definition on_entity :: "(entity \<Rightarrow> entity option) \<Rightarrow> obj \<Rightarrow> obj option" where
  "on_entity f v = (case v of Entity e \<Rightarrow> map_option Entity (f e) | _ \<Rightarrow> None)"

definition on_shape :: "(visual_shape \<Rightarrow> visual_shape option) \<Rightarrow> obj \<Rightarrow> obj option" where
  "on_shape f v = (case v of VisualShape sh \<Rightarrow> map_option VisualShape (f sh) | _ \<Rightarrow> None)"

definition on_vis :: "(visual_system \<Rightarrow> visual_system) \<Rightarrow> step" where
  "on_vis f s = Inr (s\<lparr>vis := f (vis s)\<rparr>)"

definition emit :: "event \<Rightarrow> state \<Rightarrow> state" where
  "emit ev s = s\<lparr>trace := trace s @ [ev]\<rparr>"

subsection \<open>The physics engine's objects\<close>

definition origin :: ChFrameD where
  "origin = ChFrameD (0, 0, 0) QUNIT"

definition new_entity :: "entity_kind \<Rightarrow> entity" where
  "new_entity k = \<lparr>kind = k, fixed = False, pose = origin, particles = [], mass = None,
     inertia = None, collide = False, collision_shapes = []\<rparr>"

definition Print :: "string \<Rightarrow> step" where
  "Print str s = Inr (emit (Printed str) s)"

text \<open>\<^verbatim>\<open>sys = chrono.ChSystemNSC()\<close>: an empty system.\<close>

definition ChSystemNSC :: step where
  "ChSystemNSC s = Inr (s\<lparr>collision_system := None, scene := []\<rparr>)"

definition SetCollisionSystemType :: "collision_system_type \<Rightarrow> step" where
  "SetCollisionSystemType t s = Inr (s\<lparr>collision_system := Some t\<rparr>)"

definition ChBody :: "string \<Rightarrow> step" where
  "ChBody x = new x (Entity (new_entity RigidBody))"

definition ChParticleCloud :: "string \<Rightarrow> step" where
  "ChParticleCloud x = new x (Entity (new_entity ParticleCloud))"

text \<open>
  \<^verbatim>\<open>x = ChBodyEasyConvexHullAuxRef(points, density, visualize, collide, ChMaterialSurfaceNSC())\<close>:
  the material of the last argument is created first and has no name. What the constructor
  derives from the points inside the engine is not part of the script; the arguments are
  kept as they are passed.
\<close>

definition ChBodyEasyConvexHullAuxRef ::
    "string \<Rightarrow> ChVectorD list \<Rightarrow> real \<Rightarrow> bool \<Rightarrow> bool \<Rightarrow> step" where
  "ChBodyEasyConvexHullAuxRef x points density visualize coll s =
     (let m = next_ref s;
          s1 = s\<lparr>heap := (heap s)(m \<mapsto> ContactMaterial), next_ref := m + 1\<rparr>
      in new x (Entity ((new_entity (ConvexHullBody points density visualize coll m))
                  \<lparr>collide := coll\<rparr>)) s1)"

definition SetBodyFixed :: "string \<Rightarrow> bool \<Rightarrow> step" where
  "SetBodyFixed x b =
     update x (on_entity (\<lambda>e. if kind e = ParticleCloud then None else Some (e\<lparr>fixed := b\<rparr>)))"

definition SetCollide :: "string \<Rightarrow> bool \<Rightarrow> step" where
  "SetCollide x b = update x (on_entity (\<lambda>e. Some (e\<lparr>collide := b\<rparr>)))"

definition SetMass :: "string \<Rightarrow> real \<Rightarrow> step" where
  "SetMass x m = update x (on_entity (\<lambda>e. Some (e\<lparr>mass := Some m\<rparr>)))"

definition SetInertiaXX :: "string \<Rightarrow> ChVectorD \<Rightarrow> step" where
  "SetInertiaXX x v = update x (on_entity (\<lambda>e. Some (e\<lparr>inertia := Some v\<rparr>)))"

definition Move :: "env \<Rightarrow> string \<Rightarrow> ChVectorD \<Rightarrow> step" where
  "Move E x v =
     update x (on_entity (\<lambda>e. if kind e = ParticleCloud then None
                               else Some (e\<lparr>pose := ext_Move E v (pose e)\<rparr>)))"

definition ChMaterialSurfaceNSC :: "string \<Rightarrow> step" where
  "ChMaterialSurfaceNSC x = new x ContactMaterial"

definition ChCollisionShapeBox :: "string \<Rightarrow> string \<Rightarrow> real \<Rightarrow> real \<Rightarrow> real \<Rightarrow> step" where
  "ChCollisionShapeBox x mat a b c =
     deref mat (\<lambda>m. new x (CollisionShape (ChCollisionShapeBox_obj m a b c)))"

definition ChCollisionShapeSphere :: "string \<Rightarrow> string \<Rightarrow> real \<Rightarrow> step" where
  "ChCollisionShapeSphere x mat r =
     deref mat (\<lambda>m. new x (CollisionShape (ChCollisionShapeSphere_obj m r)))"

definition AddCollisionShape :: "string \<Rightarrow> string \<Rightarrow> ChFrameD option \<Rightarrow> step" where
  "AddCollisionShape x shape fr =
     update_with x shape is_collision_shape (\<lambda>c. on_entity (\<lambda>e.
       Some (e\<lparr>collision_shapes := collision_shapes e @ [(c, fr)]\<rparr>)))"

text \<open>
  \<^verbatim>\<open>particles.AddParticle(ChCoordsysD(...))\<close>: one more member, at the given pose. Only a
  particle cloud has the method.
\<close>

definition AddParticle :: "string \<Rightarrow> ChFrameD \<Rightarrow> step" where
  "AddParticle x p =
     update x (on_entity (\<lambda>e. if kind e = ParticleCloud
                               then Some (e\<lparr>particles := particles e @ [p]\<rparr>) else None))"

text \<open>\<^verbatim>\<open>chrono.ChRandom()\<close> inside an expression: the next random number is handed on.\<close>

definition ChRandom :: "env \<Rightarrow> (real \<Rightarrow> step) \<Rightarrow> step" where
  "ChRandom E k s = k (ext_ChRandom E (random_calls s)) (s\<lparr>random_calls := random_calls s + 1\<rparr>)"

subsection \<open>Visual shapes and materials\<close>

definition new_shape :: "geometry \<Rightarrow> obj" where
  "new_shape g = VisualShape \<lparr>geometry = g, color = None, materials = [], texture = None\<rparr>"

definition ChVisualShapeBox :: "string \<Rightarrow> real \<Rightarrow> real \<Rightarrow> real \<Rightarrow> step" where
  "ChVisualShapeBox x a b c = new x (new_shape (Box a b c))"

definition ChVisualShapeSphere :: "string \<Rightarrow> real \<Rightarrow> step" where
  "ChVisualShapeSphere x r = new x (new_shape (Sphere r))"

definition ChVisualShapeCylinder :: "string \<Rightarrow> real \<Rightarrow> real \<Rightarrow> step" where
  "ChVisualShapeCylinder x r h = new x (new_shape (Cylinder r h))"

definition ChVisualShapePath :: "string \<Rightarrow> step" where
  "ChVisualShapePath x = new x (new_shape (Path []))"

definition ChVisualShapeLine :: "string \<Rightarrow> step" where
  "ChVisualShapeLine x = new x (new_shape (Line None))"

definition ChVisualShapeTriangleMesh :: "string \<Rightarrow> step" where
  "ChVisualShapeTriangleMesh x = new x (new_shape (TriangleMesh []))"

definition ChVisualShapeModelFile :: "string \<Rightarrow> step" where
  "ChVisualShapeModelFile x = new x (new_shape (ModelFile None))"

definition ChVisualMaterial :: "string \<Rightarrow> step" where
  "ChVisualMaterial x = new x (VisualMaterial \<lparr>diffuse_color = None\<rparr>)"

definition ChLineSegment :: "string \<Rightarrow> ChVectorD \<Rightarrow> ChVectorD \<Rightarrow> step" where
  "ChLineSegment x a b = new x (LineGeometry (ChLineSegment_obj a b))"

definition ChLineArc :: "string \<Rightarrow> ChFrameD \<Rightarrow> real \<Rightarrow> real \<Rightarrow> real \<Rightarrow> step" where
  "ChLineArc x c r a1 a2 = new x (LineGeometry (ChLineArc_obj c r a1 a2))"

definition ChLineNurbs :: "string \<Rightarrow> step" where
  "ChLineNurbs x = new x (LineGeometry (ChLineNurbs_obj None))"

definition SetupData :: "string \<Rightarrow> nat \<Rightarrow> ChVectorD list \<Rightarrow> step" where
  "SetupData x order points =
     update x (\<lambda>v. case v of
         LineGeometry (ChLineNurbs_obj _) \<Rightarrow> Some (LineGeometry (ChLineNurbs_obj (Some (order, points))))
       | _ \<Rightarrow> None)"

definition SetColor :: "string \<Rightarrow> ChColor \<Rightarrow> step" where
  "SetColor x c = update x (on_shape (\<lambda>sh. Some (sh\<lparr>color := Some c\<rparr>)))"

definition SetTexture :: "string \<Rightarrow> string \<Rightarrow> step" where
  "SetTexture x f = update x (on_shape (\<lambda>sh. Some (sh\<lparr>texture := Some f\<rparr>)))"

definition AddMaterial :: "string \<Rightarrow> string \<Rightarrow> step" where
  "AddMaterial x mat =
     update_with x mat is_visual_material (\<lambda>m. on_shape (\<lambda>sh. Some (sh\<lparr>materials := materials sh @ [m]\<rparr>)))"

definition SetDiffuseColor :: "string \<Rightarrow> ChColor \<Rightarrow> step" where
  "SetDiffuseColor x c =
     update x (\<lambda>v. case v of
         VisualMaterial m \<Rightarrow> Some (VisualMaterial (m\<lparr>diffuse_color := Some c\<rparr>))
       | _ \<Rightarrow> None)"

text \<open>\<^verbatim>\<open>x.GetPathGeometry().AddSubLine(l)\<close>\<close>

definition AddSubLine :: "string \<Rightarrow> string \<Rightarrow> step" where
  "AddSubLine x l =
     update_with x l is_line (\<lambda>q. on_shape (\<lambda>sh.
       case geometry sh of Path ls \<Rightarrow> Some (sh\<lparr>geometry := Path (ls @ [q])\<rparr>) | _ \<Rightarrow> None))"

definition SetLineGeometry :: "string \<Rightarrow> string \<Rightarrow> step" where
  "SetLineGeometry x l =
     update_with x l is_line (\<lambda>q. on_shape (\<lambda>sh.
       case geometry sh of Line _ \<Rightarrow> Some (sh\<lparr>geometry := Line (Some q)\<rparr>) | _ \<Rightarrow> None))"

text \<open>\<^verbatim>\<open>x.GetMesh().addTriangle(a, b, c)\<close>\<close>

definition addTriangle :: "string \<Rightarrow> ChVectorD \<Rightarrow> ChVectorD \<Rightarrow> ChVectorD \<Rightarrow> step" where
  "addTriangle x a b c =
     update x (on_shape (\<lambda>sh.
       case geometry sh of
         TriangleMesh ts \<Rightarrow> Some (sh\<lparr>geometry := TriangleMesh (ts @ [(a, b, c)])\<rparr>)
       | _ \<Rightarrow> None))"

definition SetFilename :: "string \<Rightarrow> string \<Rightarrow> step" where
  "SetFilename x f =
     update x (on_shape (\<lambda>sh.
       case geometry sh of ModelFile _ \<Rightarrow> Some (sh\<lparr>geometry := ModelFile (Some f)\<rparr>) | _ \<Rightarrow> None))"

subsection \<open>The scene, the visual attachments and the physics step\<close>

text \<open>
  Modelled from the spec: the body of \<^verbatim>\<open>sys.Add\<close> is in the engine, not in the script.
  The spec's \<open>addEntity\<close> fails with \<open>DuplicateIdError\<close> if the entity's identifier is already
  in the scene; otherwise it inserts the entity, and the scene keeps insertion order.
\<close>

definition sys_Add :: "string \<Rightarrow> step" where
  "sys_Add x = deref x (\<lambda>r s.
     case heap s r of
       Some (Entity e) \<Rightarrow>
         if r \<in> set (scene s) then Inl DuplicateIdError
         else Inr (s\<lparr>scene := scene s @ [r]\<rparr>)
     | _ \<Rightarrow> Inl TypeError)"

text \<open>
  Modelled from the spec: the body of \<^verbatim>\<open>AddVisualShape\<close> is in the engine, not in the
  script. The spec's \<open>attach\<close> fails with \<open>DanglingEntityError\<close> if the owner is not currently
  in the scene; otherwise the shape and its local frame go to the end of the owner's list.
  The shape is stored by reference. \<open>None\<close> as the frame is the call with one argument.
\<close>

definition AddVisualShape :: "string \<Rightarrow> string \<Rightarrow> ChFrameD option \<Rightarrow> step" where
  "AddVisualShape x shape fr = deref x (\<lambda>r. deref shape (\<lambda>a s.
     if r \<notin> set (scene s) then Inl DanglingEntityError
     else case heap s a of
       None \<Rightarrow> Inl TypeError
     | Some v \<Rightarrow>
         if is_visual_shape v
         then Inr (s\<lparr>registry := (registry s)(r := registry s r @ [(a, fr)])\<rparr>)
         else Inl TypeError))"

definition world_of :: "state \<Rightarrow> world" where
  "world_of s = map (\<lambda>r. (r, heap s r)) (scene s)"

text \<open>
  One tick for one stored object: an entity that is not fixed gets the integrator's pose, and
  each of its particles gets the integrator's pose for it; nothing else is written.
\<close>

definition advance :: "env \<Rightarrow> real \<Rightarrow> world \<Rightarrow> ref \<Rightarrow> obj \<Rightarrow> obj" where
  "advance E dt w r v =
     (case v of
        Entity e \<Rightarrow>
          if fixed e then Entity e
          else Entity (e\<lparr>pose := ext_integrate E dt w r None,
                         particles := map (\<lambda>k. ext_integrate E dt w r (Some k))
                                          [0..<length (particles e)]\<rparr>)
      | _ \<Rightarrow> v)"

text \<open>
  Modelled from the spec: the body of \<^verbatim>\<open>sys.DoStepDynamics\<close> is in the engine, not in the
  script. The spec's \<open>step(dt)\<close> rejects a \<open>dt\<close> that is not positive with
  \<open>InvalidTimestepError\<close>, and otherwise advances the pose of every entity of the scene by one
  tick of size \<open>dt\<close>; an entity whose fixed flag is set keeps its pose. \<open>physics\<close> is the
  tick itself.
\<close>

definition physics :: "env \<Rightarrow> real \<Rightarrow> state \<Rightarrow> state" where
  "physics E dt s =
     s\<lparr>heap := (\<lambda>r. if r \<in> set (scene s)
                     then map_option (advance E dt (world_of s) r) (heap s r)
                     else heap s r)\<rparr>"

definition DoStepDynamics :: "env \<Rightarrow> real \<Rightarrow> step" where
  "DoStepDynamics E dt s =
     (if dt \<le> 0 then Inl InvalidTimestepError
      else Inr (emit (PhysicsStepped dt) (physics E dt s)))"

subsection \<open>The viewer\<close>

definition new_visual_system :: visual_system where
  "new_visual_system = \<lparr>attached = False, window_size = None, window_title = None,
     initialized = False, logo = None, skybox = False, cameras = [], typical_lights = False,
     in_scene = False, gui = [], run_calls = 0\<rparr>"

definition ChVisualSystemIrrlicht :: step where
  "ChVisualSystemIrrlicht = on_vis (\<lambda>_. new_visual_system)"

definition AttachSystem :: step where
  "AttachSystem = on_vis (\<lambda>v. v\<lparr>attached := True\<rparr>)"

definition SetWindowSize :: "nat \<Rightarrow> nat \<Rightarrow> step" where
  "SetWindowSize w h = on_vis (\<lambda>v. v\<lparr>window_size := Some (w, h)\<rparr>)"

definition SetWindowTitle :: "string \<Rightarrow> step" where
  "SetWindowTitle t = on_vis (\<lambda>v. v\<lparr>window_title := Some t\<rparr>)"

definition Initialize :: step where
  "Initialize = on_vis (\<lambda>v. v\<lparr>initialized := True\<rparr>)"

definition AddLogo :: "string \<Rightarrow> step" where
  "AddLogo f = on_vis (\<lambda>v. v\<lparr>logo := Some f\<rparr>)"

definition AddSkyBox :: step where
  "AddSkyBox = on_vis (\<lambda>v. v\<lparr>skybox := True\<rparr>)"

definition AddCamera :: "ChVectorD \<Rightarrow> step" where
  "AddCamera p = on_vis (\<lambda>v. v\<lparr>cameras := cameras v @ [p]\<rparr>)"

definition AddTypicalLights :: step where
  "AddTypicalLights = on_vis (\<lambda>v. v\<lparr>typical_lights := True\<rparr>)"

text \<open>\<^verbatim>\<open>vis.Run()\<close>: the viewer's answer to this call, and one more call counted.\<close>

definition Run :: "env \<Rightarrow> state \<Rightarrow> bool \<times> state" where
  "Run E s = (ext_Run E (run_calls (vis s)),
              s\<lparr>vis := (vis s)\<lparr>run_calls := run_calls (vis s) + 1\<rparr>\<rparr>)"

definition BeginScene :: step where
  "BeginScene s = Inr (emit FrameBegin (s\<lparr>vis := (vis s)\<lparr>in_scene := True\<rparr>\<rparr>))"

text \<open>\<^verbatim>\<open>vis.Render()\<close> draws the scene as it is stored now.\<close>

definition Render :: step where
  "Render s = Inr (emit (FrameRendered (world_of s)) s)"

text \<open>\<^verbatim>\<open>vis.GetGUIEnvironment().addStaticText(text, rect)\<close>: one more widget in the GUI.\<close>

definition addStaticText :: "string \<Rightarrow> recti \<Rightarrow> step" where
  "addStaticText txt r s =
     Inr (emit (WidgetAdded (StaticText txt r))
           (s\<lparr>vis := (vis s)\<lparr>gui := gui (vis s) @ [StaticText txt r]\<rparr>\<rparr>))"

definition EndScene :: step where
  "EndScene s = Inr (emit FrameEnd (s\<lparr>vis := (vis s)\<lparr>in_scene := False\<rparr>\<rparr>))"

subsection \<open>The script\<close>

text \<open>The state before the first statement.\<close>

definition start :: state where
  "start = \<lparr>vars = (\<lambda>_. None), heap = (\<lambda>_. None), next_ref = 0, random_calls = 0,
     collision_system = None, scene = [], registry = (\<lambda>_. []), vis = new_visual_system,
     trace = []\<rparr>"

text \<open>Lines 19 to 29: the banner and the physical system.\<close>

definition prologue :: "step list" where
  "prologue =
    [Print '' Demo of using the assets sys to create shapes for Irrlicht visualization'',
     ChSystemNSC,
     SetCollisionSystemType Type_BULLET]"

text \<open>Lines 38 to 87: the floor, its collision box, and a box, a path and a NURBS line.\<close>

definition example1 :: "step list" where
  "example1 =
    [ChBody ''floor'',
     SetBodyFixed ''floor'' True,
     ChMaterialSurfaceNSC ''floor_mat'',
     ChCollisionShapeBox ''floor_ct_shape'' ''floor_mat'' 20 1 20,
     AddCollisionShape ''floor'' ''floor_ct_shape'' (Some (ChFrameD (0, -1, 0) QUNIT)),
     SetCollide ''floor'' True,
     sys_Add ''floor'',
     ChVisualShapeBox ''boxfloor'' 20 1 20,
     SetColor ''boxfloor'' (ChColor 0.2 0.3 1.0),
     AddVisualShape ''floor'' ''boxfloor'' (Some (ChFrameD (0, -1, 0) QUNIT)),
     ChVisualShapePath ''pathfloor'',
     ChLineSegment ''mseg1'' (1, 2, 0) (1, 3, 0),
     ChLineSegment ''mseg2'' (1, 3, 0) (2, 3, 0),
     ChLineArc ''marc1'' (ChCoordsysD (2, 3.5, 0)) 0.5 (- CH_C_PI_2) CH_C_PI_2,
     AddSubLine ''pathfloor'' ''mseg1'',
     AddSubLine ''pathfloor'' ''mseg2'',
     AddSubLine ''pathfloor'' ''marc1'',
     AddVisualShape ''floor'' ''pathfloor'' None,
     ChLineNurbs ''nurbs'',
     SetupData ''nurbs'' 3 [(1, 2, -1), (1, 3, -1), (1, 3, -2), (1, 4, -2)],
     ChVisualShapeLine ''nurbsasset'',
     SetLineGeometry ''nurbsasset'' ''nurbs'',
     AddVisualShape ''floor'' ''nurbsasset'' None]"

text \<open>Lines 165 to 170: twenty small boxes around the body, each a new shape object.\<close>

definition smallboxes :: "env \<Rightarrow> nat \<Rightarrow> step list" where
  "smallboxes E j =
    (let rot = ext_Q_from_AngY E (real j * 21 * CH_C_DEG_TO_RAD);
         pos = vadd (ext_rotate E rot (0.4, 0, 0)) (0, real j * 0.02, 0)
     in [ChVisualShapeBox ''smallbox'' 0.2 0.2 0.02,
         SetColor ''smallbox'' (ChColor (real j * 0.05) (1 - real j * 0.05) 0.0),
         AddVisualShape ''body'' ''smallbox'' (Some (ChFrameD pos rot))])"

text \<open>Lines 123 to 170: a second fixed body that carries shapes only.\<close>

definition example2 :: "env \<Rightarrow> step list" where
  "example2 E =
    [ChBody ''body'',
     SetBodyFixed ''body'' True,
     sys_Add ''body'',
     ChVisualMaterial ''orange_mat'',
     SetDiffuseColor ''orange_mat'' (ChColor 0.9 0.4 0.2),
     ChVisualShapeSphere ''sphere'' 0.5,
     AddMaterial ''sphere'' ''orange_mat'',
     AddVisualShape ''body'' ''sphere'' (Some (ChFrameD (-1, 0, 0) QUNIT)),
     ChVisualShapeBox ''box'' 0.6 1.0 0.2,
     AddMaterial ''box'' ''orange_mat'',
     AddVisualShape ''body'' ''box'' (Some (ChFrameD (1, 1, 0) QUNIT)),
     ChVisualShapeCylinder ''cyl'' 0.3 0.7,
     AddVisualShape ''body'' ''cyl''
       (Some (ChFrameD (2, 0.15, 0) (ext_Q_from_AngX E CH_C_PI_2))),
     ChVisualShapeTriangleMesh ''mesh'',
     addTriangle ''mesh'' (0, 0, 0) (0, 1, 0) (1, 0, 0),
     AddMaterial ''mesh'' ''orange_mat'',
     AddVisualShape ''body'' ''mesh'' (Some (ChFrameD (2, 0, 2) QUNIT)),
     AddVisualShape ''body'' ''mesh'' (Some (ChFrameD (3, 0, 2) QUNIT)),
     AddVisualShape ''body'' ''mesh'' (Some (ChFrameD (2, 1, 2) QUNIT)),
     ChVisualShapeModelFile ''objmesh'',
     SetFilename ''objmesh'' (ext_GetChronoDataFile E ''models/forklift/body.obj''),
     SetTexture ''objmesh'' (ext_GetChronoDataFile E ''textures/bluewhite.png''),
     AddVisualShape ''body'' ''objmesh'' (Some (ChFrameD (0, 0, 2) QUNIT))]
    @ for_range 20 (smallboxes E)"

text \<open>Lines 193 and 194: one random particle; the first random number is for \<open>x\<close>.\<close>

definition add_particles :: "env \<Rightarrow> nat \<Rightarrow> step list" where
  "add_particles E i =
    [ChRandom E (\<lambda>a. ChRandom E (\<lambda>b.
       AddParticle ''particles'' (ChCoordsysD (a - 2, 1.5, b + 2))))]"

text \<open>Lines 182 to 221: the particle cloud with its hundred random members, and the hull.\<close>

definition example3 :: "env \<Rightarrow> step list" where
  "example3 E =
    [ChParticleCloud ''particles'',
     ChMaterialSurfaceNSC ''particle_mat'',
     ChCollisionShapeSphere ''particles_ct_shape'' ''particle_mat'' 0.05,
     AddCollisionShape ''particles'' ''particles_ct_shape'' None,
     SetCollide ''particles'' True]
    @ for_range 100 (add_particles E)
    @ [SetMass ''particles'' 0.1,
       SetInertiaXX ''particles'' (0.001, 0.001, 0.001),
       sys_Add ''particles'',
       ChVisualShapeSphere ''sphereparticle'' 0.05,
       AddVisualShape ''particles'' ''sphereparticle'' None]
    @ (let displ = (1.0, 0.0, 0.0);
           v1 = vadd (0.8, 0.0, 0.0) displ;
           v2 = vadd (0.8, 0.3, 0.0) displ;
           v3 = vadd (0.8, 0.3, 0.3) displ;
           v4 = vadd (0.0, 0.3, 0.3) displ;
           v5 = vadd (0.0, 0.0, 0.3) displ;
           v6 = vadd (0.8, 0.0, 0.3) displ;
           mpoints = [v1, v2, v3, v4, v5, v6]
       in [ChBodyEasyConvexHullAuxRef ''hull'' mpoints 1000 True True,
           Move E ''hull'' (2, 0.3, 0),
           sys_Add ''hull''])"

text \<open>Lines 224 to 232: the viewer.\<close>

definition viewer :: "env \<Rightarrow> step list" where
  "viewer E =
    [ChVisualSystemIrrlicht,
     AttachSystem,
     SetWindowSize 1024 768,
     SetWindowTitle ''Chrono::Irrlicht visualization'',
     Initialize,
     AddLogo (ext_GetChronoDataFile E ''logo_pychrono_alpha.png''),
     AddSkyBox,
     AddCamera (-2, 3, -4),
     AddTypicalLights]"

definition script :: "env \<Rightarrow> step list" where
  "script E = prologue @ example1 @ example2 E @ example3 E @ viewer E"

text \<open>Lines 236 to 240: the body of the simulation loop.\<close>

definition frame :: "env \<Rightarrow> step list" where
  "frame E =
    [BeginScene,
     Render,
     addStaticText ''Hello World!'' (recti 50 60 150 80),
     EndScene,
     DoStepDynamics E 0.01]"

text \<open>
  Line 235: \<^verbatim>\<open>while vis.Run():\<close>. The viewer decides when the loop ends, so the loop need
  not return: \<open>None\<close> is a loop that runs for ever, \<open>Some (Inl e)\<close> one that an error ended,
  \<open>Some (Inr s)\<close> one that ended in state \<open>s\<close> because \<^verbatim>\<open>vis.Run()\<close> answered false.
\<close>

partial_function (option) simulation_loop :: "env \<Rightarrow> state \<Rightarrow> (error + state) option" where
  "simulation_loop E s =
     (if fst (Run E s)
      then (case run (frame E) (snd (Run E s)) of
              Inl e \<Rightarrow> Some (Inl e)
            | Inr s2 \<Rightarrow> simulation_loop E s2)
      else Some (Inr (snd (Run E s))))"

text \<open>The whole program.\<close>

definition demo :: "env \<Rightarrow> (error + state) option" where
  "demo E =
     (case run (script E) start of
        Inl e \<Rightarrow> Some (Inl e)
      | Inr s \<Rightarrow> simulation_loop E s)"

section \<open>Notions used in the statements\<close>

subsection \<open>The state after whole iterations of the loop\<close>

text \<open>The widget of line 238.\<close>

definition hello :: widget where
  "hello = StaticText ''Hello World!'' (recti 50 60 150 80)"

text \<open>
  The state after one pass through the loop body, and after \<open>n\<close> iterations of the loop
  (each is one call of \<^verbatim>\<open>vis.Run()\<close> and one pass through the body).
\<close>

definition after_frame :: "env \<Rightarrow> state \<Rightarrow> state" where
  "after_frame E s =
     s\<lparr>heap := heap (physics E 0.01 s),
       vis := (vis s)\<lparr>in_scene := False, gui := gui (vis s) @ [hello]\<rparr>,
       trace := trace s @ [FrameBegin, FrameRendered (world_of s), WidgetAdded hello, FrameEnd,
                           PhysicsStepped 0.01]\<rparr>"

text \<open>What one pass through the loop body adds to the trace, when its render sees \<open>w\<close>.\<close>

definition frame_events :: "world \<Rightarrow> event list" where
  "frame_events w = [FrameBegin, FrameRendered w, WidgetAdded hello, FrameEnd, PhysicsStepped 0.01]"

text \<open>The worlds that the renders of a trace have seen, and the sizes of its physics steps.\<close>

fun renders :: "event list \<Rightarrow> world list" where
  "renders [] = []"
| "renders (FrameRendered w # es) = w # renders es"
| "renders (_ # es) = renders es"

fun stepped :: "event list \<Rightarrow> real list" where
  "stepped [] = []"
| "stepped (PhysicsStepped dt # es) = dt # stepped es"
| "stepped (_ # es) = stepped es"

text \<open>Two states with the same scene and the same stored objects.\<close>

definition same_world :: "state \<Rightarrow> state \<Rightarrow> bool" where
  "same_world s t \<longleftrightarrow> heap s = heap t \<and> scene s = scene t"

fun after_frames :: "env \<Rightarrow> nat \<Rightarrow> state \<Rightarrow> state" where
  "after_frames E 0 s = s"
| "after_frames E (Suc n) s = after_frames E n (after_frame E (snd (Run E s)))"


fun widgets :: "event list \<Rightarrow> widget list" where
  "widgets [] = []"
| "widgets (WidgetAdded w # es) = w # widgets es"
| "widgets (_ # es) = widgets es"

text \<open>The number of entities in the scene.\<close>

fun is_entity :: "obj option \<Rightarrow> bool" where
  "is_entity (Some (Entity e)) = True"
| "is_entity _ = False"

definition entity_count :: "state \<Rightarrow> nat" where
  "entity_count s = length (filter (\<lambda>r. is_entity (heap s r)) (scene s))"

text \<open>A state with one rigid body in the scene.\<close>

definition one_body :: state where
  "one_body = start\<lparr>vars := [''floor'' \<mapsto> 0], heap := [0 \<mapsto> Entity (new_entity RigidBody)],
     next_ref := 1, scene := [0]\<rparr>"

text \<open>A statement that removes nothing from the scene.\<close>

definition scene_grows :: "step \<Rightarrow> bool" where
  "scene_grows c \<longleftrightarrow> (\<forall>s s'. c s = Inr s' \<longrightarrow> set (scene s) \<subseteq> set (scene s'))"

text \<open>A state with a body in the scene and three shapes that are not attached yet.\<close>

definition body_with_shapes :: state where
  "body_with_shapes = start\<lparr>vars := [''body'' \<mapsto> 0, ''sphere'' \<mapsto> 1, ''box'' \<mapsto> 2, ''cyl'' \<mapsto> 3],
     heap := [0 \<mapsto> Entity (new_entity RigidBody), 1 \<mapsto> new_shape (Sphere 0.5),
              2 \<mapsto> new_shape (Box 0.6 1.0 0.2), 3 \<mapsto> new_shape (Cylinder 0.3 0.7)],
     next_ref := 4, scene := [0]\<rparr>"

text \<open>
  The end-to-end scenario of the spec's section 8, written with the script's own calls: one
  fixed body, added to the system, with one box of size (1, 1, 1) attached at the origin.
  \<open>scenario_state\<close> is the state that it leaves.
\<close>

definition scenario :: "step list" where
  "scenario =
    [ChBody ''floor'',
     SetBodyFixed ''floor'' True,
     sys_Add ''floor'',
     ChVisualShapeBox ''boxfloor'' 1 1 1,
     AddVisualShape ''floor'' ''boxfloor'' (Some origin)]"

definition scenario_state :: state where
  "scenario_state = start\<lparr>vars := [''floor'' \<mapsto> 0, ''boxfloor'' \<mapsto> 1],
     heap := [0 \<mapsto> Entity ((new_entity RigidBody)\<lparr>fixed := True\<rparr>),
              1 \<mapsto> new_shape (Box 1 1 1)],
     next_ref := 2, scene := [0], registry := (\<lambda>_. [])(0 := [(1, Some origin)])\<rparr>"

text \<open>
  An environment for concrete runs: the viewer stays open for \<open>n\<close> frames, the integrator
  puts everything that moves at the origin, and the numeric routines return fixed values.
\<close>

definition quiet_env :: "nat \<Rightarrow> env" where
  "quiet_env n = \<lparr>ext_Q_from_AngX = (\<lambda>_. QUNIT), ext_Q_from_AngY = (\<lambda>_. QUNIT),
     ext_rotate = (\<lambda>q v. v), ext_ChRandom = (\<lambda>k. 0), ext_GetChronoDataFile = (\<lambda>f. f),
     ext_Move = (\<lambda>v f. f), ext_integrate = (\<lambda>dt w r k. origin), ext_Run = (\<lambda>k. k < n)\<rparr>"

subsection \<open>The particle cloud and the entities\<close>

text \<open>The pose of the particle that is built from the random numbers \<open>k\<close> and \<open>k + 1\<close>.\<close>

definition random_particle :: "env \<Rightarrow> nat \<Rightarrow> ChFrameD" where
  "random_particle E k = ChCoordsysD (ext_ChRandom E k - 2, 1.5, ext_ChRandom E (k + 1) + 2)"

text \<open>The state after \<open>n\<close> more random particles have been added to the cloud \<open>e\<close> at \<open>r\<close>.\<close>

definition with_particles :: "env \<Rightarrow> ref \<Rightarrow> entity \<Rightarrow> nat \<Rightarrow> state \<Rightarrow> state" where
  "with_particles E r e n s =
     s\<lparr>random_calls := random_calls s + 2 * n,
       heap := (heap s)(r \<mapsto> Entity (e\<lparr>particles := particles e @
                 map (\<lambda>k. random_particle E (random_calls s + 2 * k)) [0..<n]\<rparr>))\<rparr>"

text \<open>The particle cloud as the script leaves it.\<close>

definition the_cloud :: "env \<Rightarrow> entity" where
  "the_cloud E = \<lparr>kind = ParticleCloud, fixed = False, pose = origin,
     particles = map (\<lambda>k. random_particle E (2 * k)) [0..<100], mass = Some 0.1,
     inertia = Some (0.001, 0.001, 0.001), collide = True, collision_shapes = [(39, None)]\<rparr>"

text \<open>Two entities that differ at most in their pose and in the poses of their particles.\<close>

definition same_but_pose :: "entity \<Rightarrow> entity \<Rightarrow> bool" where
  "same_but_pose e e' \<longleftrightarrow>
     e'\<lparr>pose := pose e, particles := particles e\<rparr> = e \<and>
     length (particles e') = length (particles e)"

subsection \<open>Shapes and what is read through them\<close>

text \<open>
  The objects that a visual shape refers to (its materials and its line geometries), and the
  cells of the store that a render of the shape at \<open>a\<close> reads: the shape itself and what it
  refers to.
\<close>

fun lines_of :: "geometry \<Rightarrow> ref list" where
  "lines_of (Path ls) = ls"
| "lines_of (Line (Some l)) = [l]"
| "lines_of _ = []"

fun refs_of :: "obj option \<Rightarrow> ref list" where
  "refs_of (Some (VisualShape sh)) = materials sh @ lines_of (geometry sh)"
| "refs_of _ = []"

definition reads :: "state \<Rightarrow> ref \<Rightarrow> ref set" where
  "reads s a = insert a (set (refs_of (heap s a)))"

text \<open>
  The shapes that are attached to some owner, and the cells that are read through them.
\<close>

definition attached :: "state \<Rightarrow> ref set" where
  "attached s = {a. \<exists>r fr. (a, fr) \<in> set (registry s r)}"

definition frozen :: "state \<Rightarrow> ref set" where
  "frozen s = (\<Union>a\<in>attached s. reads s a)"

text \<open>
  A step from \<open>s\<close> to \<open>s'\<close> keeps the attached shapes if it writes to no cell that is read
  through an attached shape and detaches nothing.
\<close>

definition keeps :: "state \<Rightarrow> state \<Rightarrow> bool" where
  "keeps s s' \<longleftrightarrow> (\<forall>x\<in>frozen s. heap s' x = heap s x) \<and> attached s \<subseteq> attached s'"

text \<open>
  The states that a list of statements passes, the first one included, and the property that
  every single statement on the way keeps the attached shapes.
\<close>

fun states :: "step list \<Rightarrow> state \<Rightarrow> state list" where
  "states [] s = [s]"
| "states (c # cs) s = s # (case c s of Inl e \<Rightarrow> [] | Inr s' \<Rightarrow> states cs s')"

fun keeps_all :: "step list \<Rightarrow> state \<Rightarrow> bool" where
  "keeps_all [] s = True"
| "keeps_all (c # cs) s = (case c s of Inl e \<Rightarrow> True | Inr s' \<Rightarrow> keeps s s' \<and> keeps_all cs s')"

text \<open>
  Bookkeeping for the proof: a list \<open>F\<close> that holds every cell read through an attached
  shape and no cell of an entity; a step that keeps the attached shapes and the bookkeeping;
  a run of statements in which every step does.
\<close>

definition covers :: "ref list \<Rightarrow> state \<Rightarrow> bool" where
  "covers F s \<longleftrightarrow> frozen s \<subseteq> set F \<and> (\<forall>x\<in>set F. \<not> is_entity (heap s x))"

definition step_keeps :: "ref list \<Rightarrow> state \<Rightarrow> state \<Rightarrow> ref list \<Rightarrow> bool" where
  "step_keeps F s s' F' \<longleftrightarrow> (covers F s \<longrightarrow> keeps s s' \<and> covers F' s')"

definition tracked :: "ref list \<Rightarrow> step list \<Rightarrow> state \<Rightarrow> ref list \<Rightarrow> state \<Rightarrow> bool" where
  "tracked F cs s F' s' \<longleftrightarrow> run cs s = Inr s' \<and> (covers F s \<longrightarrow> keeps_all cs s \<and> covers F' s')"

text \<open>
  One iteration of the loop as a list of statements (the call of \<^verbatim>\<open>vis.Run()\<close>, then the
  loop body), and the states that the program passes when the viewer stays open for \<open>n\<close>
  frames: those of the script, then those of \<open>n\<close> iterations.
\<close>

definition iteration :: "env \<Rightarrow> step list" where
  "iteration E = (\<lambda>s. Inr (snd (Run E s))) # frame E"

definition history :: "env \<Rightarrow> nat \<Rightarrow> state list" where
  "history E n = states (script E @ concat (replicate n (iteration E))) start"

section \<open>The render loop\<close>

lemma frame_run: "run (frame E) s = Inr (after_frame E s)"
  by (simp add: frame_def after_frame_def hello_def BeginScene_def Render_def addStaticText_def
      EndScene_def DoStepDynamics_def emit_def physics_def world_of_def cong: if_cong)

lemma simulation_loop_frames:
  "\<forall>k<n. ext_Run E (run_calls (vis s) + k) \<Longrightarrow> \<not> ext_Run E (run_calls (vis s) + n) \<Longrightarrow>
   simulation_loop E s = Some (Inr (snd (Run E (after_frames E n s))))"
proof (induction n arbitrary: s)
  case 0
  then show ?case by (subst simulation_loop.simps) (simp add: Run_def)
next
  case (Suc n)
  let ?s = "after_frame E (snd (Run E s))"
  have rc: "run_calls (vis ?s) = run_calls (vis s) + 1"
    by (simp add: after_frame_def Run_def)
  have a: "\<forall>k<n. ext_Run E (run_calls (vis ?s) + k)"
  proof (intro allI impI)
    fix k assume "k < n"
    then have "Suc k < Suc n" by simp
    with Suc.prems(1) have "ext_Run E (run_calls (vis s) + Suc k)" by blast
    then show "ext_Run E (run_calls (vis ?s) + k)" by (simp add: rc)
  qed
  have b: "\<not> ext_Run E (run_calls (vis ?s) + n)"
    using Suc.prems(2) by (simp add: rc)
  have first: "ext_Run E (run_calls (vis s))"
    using Suc.prems(1) by (metis add.right_neutral zero_less_Suc)
  have "simulation_loop E s = simulation_loop E ?s"
    by (subst simulation_loop.simps) (simp add: Run_def first frame_run)
  then show ?case using Suc.IH [OF a b] by simp
qed

lemma renders_append: "renders (xs @ ys) = renders xs @ renders ys"
  by (induction xs rule: renders.induct) simp_all

lemma stepped_append: "stepped (xs @ ys) = stepped xs @ stepped ys"
  by (induction xs rule: stepped.induct) simp_all

lemma same_world_refl: "same_world s s"
  by (simp add: same_world_def)

lemma same_world_world_of: "same_world s t \<Longrightarrow> world_of s = world_of t"
  by (simp add: same_world_def world_of_def)

lemma same_world_physics: "same_world s t \<Longrightarrow> same_world (physics E dt s) (physics E dt t)"
  by (simp add: same_world_def physics_def world_of_def cong: if_cong)

lemma same_world_after_frame: "same_world s t \<Longrightarrow> same_world (after_frame E (snd (Run E s))) (physics E 0.01 t)"
  by (simp add: same_world_def after_frame_def Run_def physics_def world_of_def cong: if_cong)

lemma same_world_after_frames:
  "same_world s t \<Longrightarrow> same_world (after_frames E n s) ((physics E 0.01 ^^ n) t)"
proof (induction n arbitrary: s t)
  case 0
  then show ?case by simp
next
  case (Suc n)
  from Suc.prems have "same_world (after_frame E (snd (Run E s))) (physics E 0.01 t)"
    by (rule same_world_after_frame)
  then have "same_world (after_frames E n (after_frame E (snd (Run E s))))
     ((physics E 0.01 ^^ n) (physics E 0.01 t))"
    by (rule Suc.IH)
  then show ?case by (simp add: funpow_swap1)
qed

lemma trace_after_frame:
  "trace (after_frame E (snd (Run E s))) = trace s @ frame_events (world_of s)"
  by (simp add: after_frame_def Run_def frame_events_def world_of_def)

lemma trace_after_frames:
  "same_world s t \<Longrightarrow>
   trace (after_frames E n s) =
     trace s @ concat (map (\<lambda>k. frame_events (world_of ((physics E 0.01 ^^ k) t))) [0..<n])"
proof (induction n arbitrary: s t)
  case 0
  then show ?case by simp
next
  case (Suc n)
  let ?s1 = "after_frame E (snd (Run E s))"
  from Suc.prems have sw: "same_world ?s1 (physics E 0.01 t)"
    by (rule same_world_after_frame)
  have "trace (after_frames E (Suc n) s) = trace (after_frames E n ?s1)" by simp
  also have "\<dots> = trace ?s1 @
      concat (map (\<lambda>k. frame_events (world_of ((physics E 0.01 ^^ k) (physics E 0.01 t)))) [0..<n])"
    by (rule Suc.IH [OF sw])
  also have "trace ?s1 = trace s @ frame_events (world_of t)"
    using Suc.prems by (simp add: trace_after_frame same_world_world_of)
  also have "map (\<lambda>k. frame_events (world_of ((physics E 0.01 ^^ k) (physics E 0.01 t)))) [0..<n]
      = map (\<lambda>k. frame_events (world_of ((physics E 0.01 ^^ k) t))) (map Suc [0..<n])"
    by (simp add: funpow_swap1 comp_def)
  finally show ?case
    by (simp add: upt_conv_Cons [of 0 "Suc n"] map_Suc_upt del: upt_Suc)
qed

lemma gui_after_frames:
  "gui (vis (after_frames E n s)) = gui (vis s) @ replicate n hello"
proof (induction n arbitrary: s)
  case 0
  then show ?case by simp
next
  case (Suc n)
  have "gui (vis (after_frame E (snd (Run E s)))) = gui (vis s) @ [hello]"
    by (simp add: after_frame_def Run_def)
  then show ?case by (simp add: Suc.IH replicate_app_Cons_same)
qed

lemma scene_after_frames: "scene (after_frames E n s) = scene s"
  by (induction n arbitrary: s) (simp_all add: after_frame_def Run_def)

lemma registry_after_frames: "registry (after_frames E n s) = registry s"
  by (induction n arbitrary: s) (simp_all add: after_frame_def Run_def)

lemma renders_frames:
  "renders (concat (map (\<lambda>k. frame_events (w k)) ks)) = map w ks"
  by (induction ks) (simp_all add: renders_append frame_events_def)

lemma stepped_frames:
  "stepped (concat (map (\<lambda>k. frame_events (w k)) ks)) = replicate (length ks) 0.01"
  by (induction ks) (simp_all add: stepped_append frame_events_def)

lemma simulation_loop_returns:
  assumes "simulation_loop E s = Some r"
  shows "\<exists>n. (\<forall>k<n. ext_Run E (run_calls (vis s) + k)) \<and> \<not> ext_Run E (run_calls (vis s) + n)"
proof (rule simulation_loop.raw_induct
    [where P = "\<lambda>E s r. \<exists>n. (\<forall>k<n. ext_Run E (run_calls (vis s) + k)) \<and>
        \<not> ext_Run E (run_calls (vis s) + n)", OF _ assms])
  fix f E s r
  assume IH: "\<And>E s r. f E s = Some r \<Longrightarrow>
      \<exists>n. (\<forall>k<n. ext_Run E (run_calls (vis s) + k)) \<and> \<not> ext_Run E (run_calls (vis s) + n)"
    and eq: "(if fst (Run E s)
       then case run (frame E) (snd (Run E s)) of Inl e \<Rightarrow> Some (Inl e) | Inr s2 \<Rightarrow> f E s2
       else Some (Inr (snd (Run E s)))) = Some r"
  show "\<exists>n. (\<forall>k<n. ext_Run E (run_calls (vis s) + k)) \<and> \<not> ext_Run E (run_calls (vis s) + n)"
  proof (cases "fst (Run E s)")
    case True
    let ?s = "after_frame E (snd (Run E s))"
    have rc: "run_calls (vis ?s) = run_calls (vis s) + 1"
      by (simp add: after_frame_def Run_def)
    from True eq have "f E ?s = Some r" by (simp add: frame_run)
    then obtain n where a: "\<forall>k<n. ext_Run E (run_calls (vis ?s) + k)"
      and b: "\<not> ext_Run E (run_calls (vis ?s) + n)"
      using IH by blast
    have "\<forall>k<Suc n. ext_Run E (run_calls (vis s) + k)"
    proof (intro allI impI)
      fix k assume k: "k < Suc n"
      show "ext_Run E (run_calls (vis s) + k)"
      proof (cases k)
        case 0
        with True show ?thesis by (simp add: Run_def)
      next
        case (Suc k')
        with k have "k' < n" by simp
        with a have "ext_Run E (run_calls (vis ?s) + k')" by blast
        with Suc show ?thesis by (simp add: rc)
      qed
    qed
    moreover from b have "\<not> ext_Run E (run_calls (vis s) + Suc n)" by (simp add: rc)
    ultimately show ?thesis by blast
  next
    case False
    then have "\<not> ext_Run E (run_calls (vis s) + 0)" by (simp add: Run_def)
    then show ?thesis by blast
  qed
qed

text \<open>
  C1. A run of the loop completes exactly when the viewer answers true some \<open>n\<close> times
  and then false. In every such run the loop's events are, for \<open>k = 0, \<dots>, n - 1\<close> in
  this order: begin of frame, render, widget, end of frame, physics step. So there are
  exactly \<open>n\<close> renders and \<open>n\<close> steps, each render comes before the step of its
  iteration, and render number \<open>k + 1\<close> sees the world after exactly \<open>k\<close> steps (the
  initial world for the first render).
\<close>

theorem render_before_step:
  "((\<forall>k<n. ext_Run E (run_calls (vis s) + k)) \<and> \<not> ext_Run E (run_calls (vis s) + n) \<longrightarrow>
      (\<exists>s'. simulation_loop E s = Some (Inr s') \<and>
         trace s' = trace s @
           concat (map (\<lambda>k. frame_events (world_of ((physics E 0.01 ^^ k) s))) [0..<n]) \<and>
         renders (trace s') = renders (trace s) @
           map (\<lambda>k. world_of ((physics E 0.01 ^^ k) s)) [0..<n] \<and>
         stepped (trace s') = stepped (trace s) @ replicate n 0.01)) \<and>
   (simulation_loop E s = Some r \<longrightarrow>
      (\<exists>m. (\<forall>k<m. ext_Run E (run_calls (vis s) + k)) \<and>
           \<not> ext_Run E (run_calls (vis s) + m)))"
proof (intro conjI impI)
  assume a: "(\<forall>k<n. ext_Run E (run_calls (vis s) + k)) \<and> \<not> ext_Run E (run_calls (vis s) + n)"
  let ?s' = "snd (Run E (after_frames E n s))"
  have loop: "simulation_loop E s = Some (Inr ?s')"
    using a by (intro simulation_loop_frames) simp_all
  have tr: "trace ?s' = trace s @
      concat (map (\<lambda>k. frame_events (world_of ((physics E 0.01 ^^ k) s))) [0..<n])"
    using trace_after_frames [OF same_world_refl, of E n s] by (simp add: Run_def)
  show "\<exists>s'. simulation_loop E s = Some (Inr s') \<and>
         trace s' = trace s @
           concat (map (\<lambda>k. frame_events (world_of ((physics E 0.01 ^^ k) s))) [0..<n]) \<and>
         renders (trace s') = renders (trace s) @
           map (\<lambda>k. world_of ((physics E 0.01 ^^ k) s)) [0..<n] \<and>
         stepped (trace s') = stepped (trace s) @ replicate n 0.01"
    using loop tr
    by (simp add: renders_append stepped_append renders_frames stepped_frames)
next
  assume "simulation_loop E s = Some r"
  then show "\<exists>m. (\<forall>k<m. ext_Run E (run_calls (vis s) + k)) \<and>
      \<not> ext_Run E (run_calls (vis s) + m)"
    by (rule simulation_loop_returns)
qed

theorem render_before_step_witness:
  "\<exists>s'. simulation_loop (quiet_env 2) start = Some (Inr s') \<and>
        length (renders (trace s')) = 2 \<and> stepped (trace s') = [0.01, 0.01] \<and>
        (\<exists>m. (\<forall>k<m. ext_Run (quiet_env 2) k) \<and> \<not> ext_Run (quiet_env 2) m)"
proof -
  have rc: "run_calls (vis start) = 0" by (simp add: start_def new_visual_system_def)
  have a: "(\<forall>k<2. ext_Run (quiet_env 2) (run_calls (vis start) + k)) \<and>
      \<not> ext_Run (quiet_env 2) (run_calls (vis start) + 2)"
    by (simp add: quiet_env_def rc)
  with render_before_step [of 2 "quiet_env 2" start] obtain s'
    where l: "simulation_loop (quiet_env 2) start = Some (Inr s')"
      and r: "renders (trace s') = renders (trace start) @
        map (\<lambda>k. world_of ((physics (quiet_env 2) 0.01 ^^ k) start)) [0..<2]"
      and st: "stepped (trace s') = stepped (trace start) @ replicate 2 0.01"
    by blast
  from render_before_step [of 2 "quiet_env 2" start "Inr s'"] l
  have "\<exists>m. (\<forall>k<m. ext_Run (quiet_env 2) k) \<and> \<not> ext_Run (quiet_env 2) m"
    by (simp add: rc)
  moreover from r have "length (renders (trace s')) = 2" by (simp add: start_def)
  moreover from st have "stepped (trace s') = [0.01, 0.01]"
    by (simp add: start_def numeral_2_eq_2)
  ultimately show ?thesis using l by blast
qed

lemma widgets_append: "widgets (xs @ ys) = widgets xs @ widgets ys"
  by (induction xs rule: widgets.induct) simp_all

lemma widgets_frames:
  "widgets (concat (map (\<lambda>k. frame_events (w k)) ks)) = replicate (length ks) hello"
  by (induction ks) (simp_all add: widgets_append frame_events_def)

section \<open>The physics step\<close>

lemma is_entity_advance: "is_entity (map_option (advance E dt w r) v) = is_entity v"
proof (cases v)
  case None
  then show ?thesis by simp
next
  case (Some x)
  then show ?thesis by (cases x) (simp_all add: advance_def)
qed

lemma is_entity_physics: "is_entity (heap (physics E dt s) r) = is_entity (heap s r)"
  by (simp add: physics_def is_entity_advance)

lemma entity_count_physics: "entity_count (physics E dt s) = entity_count s"
proof -
  have "scene (physics E dt s) = scene s" by (simp add: physics_def)
  then show ?thesis by (simp add: entity_count_def is_entity_physics)
qed

text \<open>
  C2. For every real \<open>dt\<close>, the step fails with \<open>InvalidTimestepError\<close> when
  \<open>dt \<le> 0\<close>; when \<open>0 < dt\<close> it succeeds, whatever the integrator returns, and leaves
  the scene and the number of entities in it unchanged.
\<close>

theorem step_rejects_nonpositive_dt:
  "(dt \<le> 0 \<longrightarrow> DoStepDynamics E dt s = Inl InvalidTimestepError) \<and>
   (0 < dt \<longrightarrow> (\<exists>s'. DoStepDynamics E dt s = Inr s' \<and> scene s' = scene s \<and>
                     entity_count s' = entity_count s))"
proof (intro conjI impI)
  assume "dt \<le> 0"
  then show "DoStepDynamics E dt s = Inl InvalidTimestepError"
    by (simp add: DoStepDynamics_def)
next
  assume pos: "0 < dt"
  let ?s' = "emit (PhysicsStepped dt) (physics E dt s)"
  have "DoStepDynamics E dt s = Inr ?s'"
    using pos by (simp add: DoStepDynamics_def)
  moreover have "scene ?s' = scene s"
    by (simp add: emit_def physics_def)
  moreover have "entity_count ?s' = entity_count (physics E dt s)"
    by (simp add: emit_def entity_count_def)
  ultimately show "\<exists>s'. DoStepDynamics E dt s = Inr s' \<and> scene s' = scene s \<and>
      entity_count s' = entity_count s"
    by (simp add: entity_count_physics)
qed

theorem step_rejects_nonpositive_dt_witness:
  "DoStepDynamics (quiet_env 0) (- 1) one_body = Inl InvalidTimestepError \<and>
   (\<exists>s'. DoStepDynamics (quiet_env 0) 0.01 one_body = Inr s' \<and> scene s' = [0] \<and>
     entity_count s' = 1)"
  using step_rejects_nonpositive_dt [of "- 1" "quiet_env 0" one_body]
    step_rejects_nonpositive_dt [of "0.01" "quiet_env 0" one_body]
  by (simp add: one_body_def start_def entity_count_def)

section \<open>The timestep of the loop\<close>

lemma stepped_after_frames:
  "stepped (trace (after_frames E n s)) = stepped (trace s) @ replicate n 0.01"
  using trace_after_frames [OF same_world_refl, of E n s]
  by (simp add: stepped_append stepped_frames)

lemma simulation_loop_unroll:
  "\<forall>k<n. ext_Run E (run_calls (vis s) + k) \<Longrightarrow>
   simulation_loop E s = simulation_loop E (after_frames E n s)"
proof (induction n arbitrary: s)
  case 0
  then show ?case by simp
next
  case (Suc n)
  let ?s = "after_frame E (snd (Run E s))"
  have rc: "run_calls (vis ?s) = run_calls (vis s) + 1"
    by (simp add: after_frame_def Run_def)
  have a: "\<forall>k<n. ext_Run E (run_calls (vis ?s) + k)"
  proof (intro allI impI)
    fix k assume "k < n"
    then have "Suc k < Suc n" by simp
    with Suc.prems have "ext_Run E (run_calls (vis s) + Suc k)" by blast
    then show "ext_Run E (run_calls (vis ?s) + k)" by (simp add: rc)
  qed
  have first: "ext_Run E (run_calls (vis s))"
    using Suc.prems by (metis add.right_neutral zero_less_Suc)
  have "simulation_loop E s = simulation_loop E ?s"
    by (subst simulation_loop.simps) (simp add: Run_def first frame_run)
  then show ?case using Suc.IH [OF a] by simp
qed

lemma simulation_loop_result:
  assumes "simulation_loop E s = Some r"
  shows "\<exists>s' n. r = Inr s' \<and> stepped (trace s') = stepped (trace s) @ replicate n 0.01"
proof (rule simulation_loop.raw_induct
    [where P = "\<lambda>E s r. \<exists>s' n. r = Inr s' \<and>
        stepped (trace s') = stepped (trace s) @ replicate n 0.01", OF _ assms])
  fix f E s r
  assume IH: "\<And>E s r. f E s = Some r \<Longrightarrow>
      \<exists>s' n. r = Inr s' \<and> stepped (trace s') = stepped (trace s) @ replicate n 0.01"
    and eq: "(if fst (Run E s)
       then case run (frame E) (snd (Run E s)) of Inl e \<Rightarrow> Some (Inl e) | Inr s2 \<Rightarrow> f E s2
       else Some (Inr (snd (Run E s)))) = Some r"
  show "\<exists>s' n. r = Inr s' \<and> stepped (trace s') = stepped (trace s) @ replicate n 0.01"
  proof (cases "fst (Run E s)")
    case True
    with eq have "f E (after_frame E (snd (Run E s))) = Some r"
      by (simp add: frame_run)
    then obtain s' n where r: "r = Inr s'"
      and st: "stepped (trace s') =
        stepped (trace (after_frame E (snd (Run E s)))) @ replicate n 0.01"
      using IH by blast
    have "stepped (trace (after_frame E (snd (Run E s)))) = stepped (trace s) @ [0.01]"
      by (simp add: trace_after_frame stepped_append frame_events_def)
    with st have "stepped (trace s') = stepped (trace s) @ replicate (Suc n) 0.01"
      by simp
    with r show ?thesis by blast
  next
    case False
    with eq have "r = Inr (snd (Run E s))" by simp
    moreover have "stepped (trace (snd (Run E s))) = stepped (trace s) @ replicate 0 0.01"
      by (simp add: Run_def)
    ultimately show ?thesis by blast
  qed
qed

text \<open>
  C9. No execution of the loop ends with \<open>InvalidTimestepError\<close>: a loop that returns has
  returned a state, and every physics step in its trace has the size 0.01; a loop that is
  still running after \<open>n\<close> iterations has made \<open>n\<close> steps, each of size 0.01.
\<close>

theorem timestep_never_invalid:
  "simulation_loop E s \<noteq> Some (Inl InvalidTimestepError) \<and>
   (\<forall>r. simulation_loop E s = Some r \<longrightarrow>
      (\<exists>s' n. r = Inr s' \<and> stepped (trace s') = stepped (trace s) @ replicate n 0.01)) \<and>
   (\<forall>n. (\<forall>k<n. ext_Run E (run_calls (vis s) + k)) \<longrightarrow>
      simulation_loop E s = simulation_loop E (after_frames E n s) \<and>
      stepped (trace (after_frames E n s)) = stepped (trace s) @ replicate n 0.01)"
proof (intro conjI allI impI)
  show "simulation_loop E s \<noteq> Some (Inl InvalidTimestepError)"
    using simulation_loop_result [of E s "Inl InvalidTimestepError"] by auto
next
  fix r assume "simulation_loop E s = Some r"
  then show "\<exists>s' n. r = Inr s' \<and> stepped (trace s') = stepped (trace s) @ replicate n 0.01"
    by (rule simulation_loop_result)
next
  fix n assume "\<forall>k<n. ext_Run E (run_calls (vis s) + k)"
  then show "simulation_loop E s = simulation_loop E (after_frames E n s)"
    by (rule simulation_loop_unroll)
next
  fix n
  show "stepped (trace (after_frames E n s)) = stepped (trace s) @ replicate n 0.01"
    by (rule stepped_after_frames)
qed

theorem timestep_never_invalid_witness:
  "\<exists>s'. simulation_loop (quiet_env 3) start = Some (Inr s') \<and>
     stepped (trace s') = [0.01, 0.01, 0.01]"
proof -
  have run3: "\<forall>k<3. ext_Run (quiet_env 3) (run_calls (vis start) + k)"
    by (simp add: quiet_env_def start_def new_visual_system_def)
  have stop: "\<not> ext_Run (quiet_env 3) (run_calls (vis start) + 3)"
    by (simp add: quiet_env_def start_def new_visual_system_def)
  from simulation_loop_frames [OF run3 stop]
  obtain r where r: "simulation_loop (quiet_env 3) start = Some r" by blast
  from timestep_never_invalid [of "quiet_env 3" start] r run3
  obtain s' n where s': "r = Inr s'"
    and st: "stepped (trace s') = stepped (trace start) @ replicate n 0.01"
    and un: "simulation_loop (quiet_env 3) start =
       simulation_loop (quiet_env 3) (after_frames (quiet_env 3) 3 start)"
    and st3: "stepped (trace (after_frames (quiet_env 3) 3 start)) =
       stepped (trace start) @ replicate 3 0.01"
    by blast
  have "simulation_loop (quiet_env 3) start =
      Some (Inr (snd (Run (quiet_env 3) (after_frames (quiet_env 3) 3 start))))"
    by (rule simulation_loop_frames [OF run3 stop])
  with r s' have "s' = snd (Run (quiet_env 3) (after_frames (quiet_env 3) 3 start))" by simp
  then have "stepped (trace s') = stepped (trace (after_frames (quiet_env 3) 3 start))"
    by (simp add: Run_def)
  with st3 have "stepped (trace s') = [0.01, 0.01, 0.01]"
    by (simp add: start_def numeral_3_eq_3)
  with r s' show ?thesis by blast
qed

section \<open>The widgets of the loop\<close>

text \<open>
  C10. Every iteration adds one static text to the GUI, after the render and before the end
  of the frame; a run of \<open>n\<close> iterations leaves \<open>n\<close> more widgets in the GUI than it
  found.
\<close>

theorem widgets_accumulate:
  assumes "\<forall>k<n. ext_Run E (run_calls (vis s) + k)"
    and "\<not> ext_Run E (run_calls (vis s) + n)"
  shows "\<exists>s'. simulation_loop E s = Some (Inr s') \<and>
           gui (vis s') = gui (vis s) @ replicate n hello \<and>
           widgets (trace s') = widgets (trace s) @ replicate n hello \<and>
           (\<exists>ws. length ws = n \<and> trace s' = trace s @ concat (map
              (\<lambda>w. [FrameBegin, FrameRendered w, WidgetAdded hello, FrameEnd,
                     PhysicsStepped 0.01]) ws))"
proof -
  let ?s' = "snd (Run E (after_frames E n s))"
  let ?ws = "map (\<lambda>k. world_of ((physics E 0.01 ^^ k) s)) [0..<n]"
  have loop: "simulation_loop E s = Some (Inr ?s')"
    using assms by (rule simulation_loop_frames)
  have g: "gui (vis ?s') = gui (vis s) @ replicate n hello"
    by (simp add: Run_def gui_after_frames)
  have tr: "trace ?s' = trace s @
      concat (map (\<lambda>k. frame_events (world_of ((physics E 0.01 ^^ k) s))) [0..<n])"
    using trace_after_frames [OF same_world_refl, of E n s] by (simp add: Run_def)
  have w: "widgets (trace ?s') = widgets (trace s) @ replicate n hello"
    by (simp add: tr widgets_append widgets_frames)
  have "trace ?s' = trace s @ concat (map
      (\<lambda>w. [FrameBegin, FrameRendered w, WidgetAdded hello, FrameEnd, PhysicsStepped 0.01]) ?ws)"
    by (simp add: tr frame_events_def comp_def)
  moreover have "length ?ws = n" by simp
  ultimately show ?thesis using loop g w by blast
qed

theorem widgets_accumulate_witness:
  "\<exists>s'. simulation_loop (quiet_env 4) start = Some (Inr s') \<and>
     gui (vis s') = [hello, hello, hello, hello]"
  using widgets_accumulate [of 4 "quiet_env 4" start]
  by (auto simp: quiet_env_def start_def new_visual_system_def numeral_eq_Suc)

section \<open>Attaching visual shapes\<close>

lemma run_append: "run (cs @ ds) s = (case run cs s of Inl e \<Rightarrow> Inl e | Inr s' \<Rightarrow> run ds s')"
  by (induction cs arbitrary: s) (auto split: sum.splits)

lemma scene_grows_run:
  "\<forall>c\<in>set cs. scene_grows c \<Longrightarrow> run cs s = Inr s' \<Longrightarrow> set (scene s) \<subseteq> set (scene s')"
proof (induction cs arbitrary: s)
  case Nil
  then show ?case by simp
next
  case (Cons c cs)
  from Cons.prems(2) obtain s1 where c: "c s = Inr s1" and rest: "run cs s1 = Inr s'"
    by (auto split: sum.splits)
  from Cons.prems(1) c have "set (scene s) \<subseteq> set (scene s1)"
    by (simp add: scene_grows_def)
  moreover from Cons.prems(1) rest have "set (scene s1) \<subseteq> set (scene s')"
    by (intro Cons.IH) simp_all
  ultimately show ?case by blast
qed

lemma scene_grows_new: "scene_grows (new x v)"
  by (auto simp: scene_grows_def new_def)

lemma scene_grows_update_at: "scene_grows (update_at r f)"
  by (auto simp: scene_grows_def update_at_def split: option.splits)

lemma scene_grows_deref: "(\<And>r. scene_grows (k r)) \<Longrightarrow> scene_grows (deref x k)"
  by (auto simp: scene_grows_def deref_def split: option.splits)

lemma scene_grows_update: "scene_grows (update x f)"
  by (simp add: update_def scene_grows_deref scene_grows_update_at)

lemma scene_grows_update_with: "scene_grows (update_with x y ok f)"
  unfolding update_with_def
proof (intro scene_grows_deref)
  fix r q
  show "scene_grows (\<lambda>s. case heap s q of None \<Rightarrow> Inl TypeError
      | Some v \<Rightarrow> if ok v then update_at r (f q) s else Inl TypeError)"
    using scene_grows_update_at [of r "f q"]
    by (auto simp: scene_grows_def split: option.splits if_splits)
qed

lemma scene_grows_on_vis: "scene_grows (on_vis f)"
  by (auto simp: scene_grows_def on_vis_def)

lemma scene_grows_sys_Add: "scene_grows (sys_Add x)"
  by (auto simp: scene_grows_def sys_Add_def deref_def split: option.splits obj.splits if_splits)

lemma scene_grows_AddVisualShape: "scene_grows (AddVisualShape x y fr)"
  by (auto simp: scene_grows_def AddVisualShape_def deref_def split: option.splits if_splits)

lemma scene_grows_DoStepDynamics: "scene_grows (DoStepDynamics E dt)"
  by (auto simp: scene_grows_def DoStepDynamics_def emit_def physics_def split: if_splits)

lemma sys_Add_member:
  "sys_Add x s = Inr s1 \<Longrightarrow> vars s x = Some r \<Longrightarrow>
   r \<in> set (scene s1) \<and> vars s1 = vars s \<and> heap s1 = heap s"
  by (auto simp: sys_Add_def deref_def split: option.splits obj.splits if_splits)

lemma AddVisualShape_ok:
  "vars s x = Some r \<Longrightarrow> vars s y = Some a \<Longrightarrow> r \<in> set (scene s) \<Longrightarrow>
   heap s a = Some (VisualShape sh) \<Longrightarrow>
   AddVisualShape x y fr s = Inr (s\<lparr>registry := (registry s)(r := registry s r @ [(a, fr)])\<rparr>)"
  by (simp add: AddVisualShape_def deref_def)

lemma AddVisualShape_dangling:
  "vars s x = Some r \<Longrightarrow> vars s y = Some a \<Longrightarrow> r \<notin> set (scene s) \<Longrightarrow>
   AddVisualShape x y fr s = Inl DanglingEntityError"
  by (simp add: AddVisualShape_def deref_def)

text \<open>
  C3. If \<^verbatim>\<open>sys.Add\<close> has added the entity \<open>r\<close>, then after any further statements that
  remove nothing from the scene, attaching a visual shape to \<open>r\<close> succeeds and puts the
  shape at the end of the entity's list. Attaching to an entity that is not in the scene
  fails with \<open>DanglingEntityError\<close>. (Every statement of the script after the creation of
  the system removes nothing from the scene: \<open>script_scene_grows\<close> below.)
\<close>

theorem attach_after_add:
  "(sys_Add x s = Inr s1 \<and> vars s x = Some r \<and> run cs s1 = Inr s2 \<and>
      (\<forall>c\<in>set cs. scene_grows c) \<and>
      vars s2 x' = Some r \<and> vars s2 y = Some a \<and> heap s2 a = Some (VisualShape sh)
    \<longrightarrow> (\<exists>s3. AddVisualShape x' y fr s2 = Inr s3 \<and>
              registry s3 r = registry s2 r @ [(a, fr)])) \<and>
   (vars s x = Some r \<and> vars s y = Some a \<and> r \<notin> set (scene s)
    \<longrightarrow> AddVisualShape x y fr s = Inl DanglingEntityError)"
proof (intro conjI impI)
  assume h: "sys_Add x s = Inr s1 \<and> vars s x = Some r \<and> run cs s1 = Inr s2 \<and>
      (\<forall>c\<in>set cs. scene_grows c) \<and>
      vars s2 x' = Some r \<and> vars s2 y = Some a \<and> heap s2 a = Some (VisualShape sh)"
  then have "r \<in> set (scene s1)" using sys_Add_member by blast
  moreover from h have "set (scene s1) \<subseteq> set (scene s2)"
    using scene_grows_run by blast
  ultimately have "r \<in> set (scene s2)" by blast
  with h have "AddVisualShape x' y fr s2 =
      Inr (s2\<lparr>registry := (registry s2)(r := registry s2 r @ [(a, fr)])\<rparr>)"
    by (simp add: AddVisualShape_ok)
  then show "\<exists>s3. AddVisualShape x' y fr s2 = Inr s3 \<and> registry s3 r = registry s2 r @ [(a, fr)]"
    by simp
next
  assume "vars s x = Some r \<and> vars s y = Some a \<and> r \<notin> set (scene s)"
  then show "AddVisualShape x y fr s = Inl DanglingEntityError"
    by (simp add: AddVisualShape_dangling)
qed

lemma scene_grows_direct:
  "scene_grows (Print str)"
  "scene_grows (SetCollisionSystemType ty)"
  "scene_grows (ChBodyEasyConvexHullAuxRef x pts d vz cl)"
  "scene_grows BeginScene"
  "scene_grows Render"
  "scene_grows (addStaticText txt rc)"
  "scene_grows EndScene"
  by (auto simp: scene_grows_def Print_def SetCollisionSystemType_def emit_def
      ChBodyEasyConvexHullAuxRef_def new_def Let_def BeginScene_def Render_def
      addStaticText_def EndScene_def)

lemma scene_grows_ChRandom:
  assumes "\<And>a. scene_grows (k a)"
  shows "scene_grows (ChRandom E k)"
  unfolding scene_grows_def ChRandom_def
proof (intro allI impI)
  fix s s' :: state
  let ?t = "s\<lparr>random_calls := random_calls s + 1\<rparr>"
  assume "k (ext_ChRandom E (random_calls s)) ?t = Inr s'"
  with assms have "set (scene ?t) \<subseteq> set (scene s')"
    unfolding scene_grows_def by blast
  then show "set (scene s) \<subseteq> set (scene s')" by simp
qed

lemmas scene_grows_rules = scene_grows_new scene_grows_update scene_grows_update_with
  scene_grows_on_vis scene_grows_sys_Add scene_grows_AddVisualShape scene_grows_DoStepDynamics
  scene_grows_direct scene_grows_deref scene_grows_ChRandom

lemmas api_defs = ChBody_def ChParticleCloud_def SetBodyFixed_def SetCollide_def SetMass_def
  SetInertiaXX_def Move_def ChMaterialSurfaceNSC_def ChCollisionShapeBox_def
  ChCollisionShapeSphere_def AddCollisionShape_def AddParticle_def ChVisualShapeBox_def
  ChVisualShapeSphere_def ChVisualShapeCylinder_def ChVisualShapePath_def ChVisualShapeLine_def
  ChVisualShapeTriangleMesh_def ChVisualShapeModelFile_def ChVisualMaterial_def ChLineSegment_def
  ChLineArc_def ChLineNurbs_def SetupData_def SetColor_def SetTexture_def AddMaterial_def
  SetDiffuseColor_def AddSubLine_def SetLineGeometry_def addTriangle_def SetFilename_def
  ChVisualSystemIrrlicht_def AttachSystem_def SetWindowSize_def SetWindowTitle_def Initialize_def
  AddLogo_def AddSkyBox_def AddCamera_def AddTypicalLights_def

lemma script_scene_grows:
  "\<forall>c\<in>set (example1 @ example2 E @ example3 E @ viewer E @ frame E). scene_grows c"
  by (auto simp: example1_def example2_def example3_def viewer_def frame_def smallboxes_def
      add_particles_def for_range_def Let_def api_defs intro!: scene_grows_rules)

theorem attach_after_add_witness:
  "\<exists>s s1 s2 s3 t.
     run [ChBody ''floor'', SetBodyFixed ''floor'' True] start = Inr s \<and>
     sys_Add ''floor'' s = Inr s1 \<and>
     run [ChVisualShapeBox ''boxfloor'' 20 1 20, SetColor ''boxfloor'' (ChColor 0.2 0.3 1.0)] s1
       = Inr s2 \<and>
     AddVisualShape ''floor'' ''boxfloor'' None s2 = Inr s3 \<and> registry s3 0 = [(1, None)] \<and>
     run [ChBody ''floor'', ChVisualShapeBox ''boxfloor'' 20 1 20] start = Inr t \<and>
     AddVisualShape ''floor'' ''boxfloor'' None t = Inl DanglingEntityError"
proof -
  let ?cs = "[ChVisualShapeBox ''boxfloor'' 20 1 20, SetColor ''boxfloor'' (ChColor 0.2 0.3 1.0)]"
  let ?floor = "Entity ((new_entity RigidBody)\<lparr>fixed := True\<rparr>)"
  let ?box = "\<lparr>geometry = Box 20 1 20, color = Some (ChColor 0.2 0.3 1.0), materials = [],
    texture = None\<rparr>"
  let ?s = "start\<lparr>vars := [''floor'' \<mapsto> 0], heap := [0 \<mapsto> ?floor], next_ref := 1\<rparr>"
  let ?s1 = "?s\<lparr>scene := [0]\<rparr>"
  let ?s2 = "?s1\<lparr>vars := [''floor'' \<mapsto> 0, ''boxfloor'' \<mapsto> 1],
    heap := [0 \<mapsto> ?floor, 1 \<mapsto> VisualShape ?box], next_ref := 2\<rparr>"
  let ?t = "start\<lparr>vars := [''floor'' \<mapsto> 0, ''boxfloor'' \<mapsto> 1],
    heap := [0 \<mapsto> Entity (new_entity RigidBody), 1 \<mapsto> new_shape (Box 20 1 20)],
    next_ref := 2\<rparr>"
  have s: "run [ChBody ''floor'', SetBodyFixed ''floor'' True] start = Inr ?s"
    by (simp add: start_def ChBody_def SetBodyFixed_def new_def update_def update_at_def deref_def
        on_entity_def new_entity_def)
  have s1: "sys_Add ''floor'' ?s = Inr ?s1"
    by (simp add: start_def sys_Add_def deref_def)
  have s2: "run ?cs ?s1 = Inr ?s2"
    by (simp add: start_def ChVisualShapeBox_def SetColor_def new_def update_def update_at_def
        deref_def on_shape_def new_shape_def)
  have g: "\<forall>c\<in>set ?cs. scene_grows c"
    by (simp add: ChVisualShapeBox_def SetColor_def scene_grows_rules)
  have t: "run [ChBody ''floor'', ChVisualShapeBox ''boxfloor'' 20 1 20] start = Inr ?t"
    by (simp add: start_def ChBody_def new_def ChVisualShapeBox_def)
  from attach_after_add [of "''floor''" ?s ?s1 0 ?cs ?s2 "''floor''" "''boxfloor''" 1 ?box None]
    s1 s2 g
  obtain s3 where s3: "AddVisualShape ''floor'' ''boxfloor'' None ?s2 = Inr s3"
    and r3: "registry s3 0 = registry ?s2 0 @ [(1, None)]"
    by auto
  from r3 have r3': "registry s3 0 = [(1, None)]"
    by (simp add: start_def)
  from attach_after_add [of "''floor''" ?t ?s1 0 ?cs ?s2 "''floor''" "''boxfloor''" 1 ?box None]
  have d: "AddVisualShape ''floor'' ''boxfloor'' None ?t = Inl DanglingEntityError"
    by (simp add: start_def)
  from s s1 s2 s3 r3' t d show ?thesis by blast
qed

text \<open>
  C4. Three shapes attached to one entity of the scene, in this order, are at the end of the
  entity's list in this order, after what was attached before; the lists of the other
  entities do not change.
\<close>

theorem attachment_order:
  assumes "vars s x = Some r" and "r \<in> set (scene s)"
    and "vars s y1 = Some a1" and "heap s a1 = Some (VisualShape sh1)"
    and "vars s y2 = Some a2" and "heap s a2 = Some (VisualShape sh2)"
    and "vars s y3 = Some a3" and "heap s a3 = Some (VisualShape sh3)"
  shows "\<exists>s'. run [AddVisualShape x y1 f1, AddVisualShape x y2 f2, AddVisualShape x y3 f3] s
             = Inr s' \<and>
           registry s' r = registry s r @ [(a1, f1), (a2, f2), (a3, f3)] \<and>
           (\<forall>r'. r' \<noteq> r \<longrightarrow> registry s' r' = registry s r')"
  using assms by (simp add: AddVisualShape_ok)

theorem attachment_order_witness:
  "\<exists>s'. run [AddVisualShape ''body'' ''sphere'' (Some (ChFrameD (-1, 0, 0) QUNIT)),
             AddVisualShape ''body'' ''box'' (Some (ChFrameD (1, 1, 0) QUNIT)),
             AddVisualShape ''body'' ''cyl'' None] body_with_shapes = Inr s' \<and>
     registry s' 0 = [(1, Some (ChFrameD (-1, 0, 0) QUNIT)), (2, Some (ChFrameD (1, 1, 0) QUNIT)),
                      (3, None)]"
  using attachment_order [of body_with_shapes "''body''" 0 "''sphere''" 1
      "\<lparr>geometry = Sphere 0.5, color = None, materials = [], texture = None\<rparr>" "''box''" 2
      "\<lparr>geometry = Box 0.6 1.0 0.2, color = None, materials = [], texture = None\<rparr>" "''cyl''" 3
      "\<lparr>geometry = Cylinder 0.3 0.7, color = None, materials = [], texture = None\<rparr>"
      "Some (ChFrameD (-1, 0, 0) QUNIT)" "Some (ChFrameD (1, 1, 0) QUNIT)" None]
  by (auto simp: body_with_shapes_def start_def new_shape_def)

section \<open>The end-to-end scenario\<close>

lemma fixed_kept_physics:
  "heap s r = Some (Entity e) \<Longrightarrow> fixed e \<Longrightarrow> heap (physics E dt s) r = Some (Entity e)"
  by (simp add: physics_def advance_def)

lemma heap_after_frame: "heap (after_frame E (snd (Run E s))) = heap (physics E 0.01 s)"
  by (simp add: after_frame_def Run_def physics_def world_of_def cong: if_cong)

lemma fixed_kept_frames:
  "heap s r = Some (Entity e) \<Longrightarrow> fixed e \<Longrightarrow> heap (after_frames E n s) r = Some (Entity e)"
proof (induction n arbitrary: s)
  case 0
  then show ?case by simp
next
  case (Suc n)
  from Suc.prems have "heap (after_frame E (snd (Run E s))) r = Some (Entity e)"
    by (simp add: heap_after_frame fixed_kept_physics)
  then show ?case using Suc.prems(2) by (simp add: Suc.IH)
qed

lemma scenario_run: "run scenario start = Inr scenario_state"
  by (simp add: scenario_def scenario_state_def start_def ChBody_def SetBodyFixed_def sys_Add_def
      ChVisualShapeBox_def AddVisualShape_def new_def update_def update_at_def deref_def
      on_entity_def new_entity_def new_shape_def)

text \<open>
  C5. The scenario raises no error and leaves one fixed body at the origin with one box
  attached. If the viewer then stays open for exactly five frames, the loop returns without
  an error, five renders and five steps of size 0.01 have happened, and the body is stored
  exactly as before the loop, so its pose is still the initial one.
\<close>

theorem fixed_scenario:
  assumes "\<forall>k<5. ext_Run E k" and "\<not> ext_Run E 5"
  shows "\<exists>s0 s' e. run scenario start = Inr s0 \<and>
           scene s0 = [0] \<and> heap s0 0 = Some (Entity e) \<and> fixed e \<and> pose e = origin \<and>
           (\<exists>sh. heap s0 1 = Some (VisualShape sh) \<and> geometry sh = Box 1 1 1) \<and>
           registry s0 0 = [(1, Some origin)] \<and>
           simulation_loop E s0 = Some (Inr s') \<and>
           length (renders (trace s')) = 5 \<and>
           stepped (trace s') = replicate 5 0.01 \<and>
           heap s' 0 = Some (Entity e)"
proof -
  let ?e = "(new_entity RigidBody)\<lparr>fixed := True\<rparr>"
  let ?s' = "snd (Run E (after_frames E 5 scenario_state))"
  have rc: "run_calls (vis scenario_state) = 0"
    by (simp add: scenario_state_def start_def new_visual_system_def)
  have h0: "heap scenario_state 0 = Some (Entity ?e)"
    by (simp add: scenario_state_def)
  have loop: "simulation_loop E scenario_state = Some (Inr ?s')"
    using assms by (intro simulation_loop_frames) (simp_all add: rc)
  have tr: "trace ?s' = trace scenario_state @ concat (map
      (\<lambda>k. frame_events (world_of ((physics E 0.01 ^^ k) scenario_state))) [0..<5])"
    using trace_after_frames [OF same_world_refl, of E 5 scenario_state] by (simp add: Run_def)
  have t0: "trace scenario_state = []"
    by (simp add: scenario_state_def start_def)
  have ren: "length (renders (trace ?s')) = 5"
    by (simp add: tr t0 renders_frames)
  have st: "stepped (trace ?s') = replicate 5 0.01"
    by (simp add: tr t0 stepped_frames)
  have kept: "heap ?s' 0 = Some (Entity ?e)"
    using fixed_kept_frames [OF h0, of E 5] by (simp add: Run_def)
  have "scene scenario_state = [0]" "fixed ?e" "pose ?e = origin"
    "\<exists>sh. heap scenario_state 1 = Some (VisualShape sh) \<and> geometry sh = Box 1 1 1"
    "registry scenario_state 0 = [(1, Some origin)]"
    by (simp_all add: scenario_state_def new_entity_def new_shape_def)
  with scenario_run h0 loop ren st kept show ?thesis by blast
qed

theorem fixed_scenario_witness:
  "\<exists>s0 s'. run scenario start = Inr s0 \<and> simulation_loop (quiet_env 5) s0 = Some (Inr s') \<and>
     length (renders (trace s')) = 5 \<and> heap s' 0 = heap s0 0"
  using fixed_scenario [of "quiet_env 5"]
  by (auto simp: quiet_env_def)

section \<open>Running the script\<close>

lemma add_particle_step:
  "vars s ''particles'' = Some r \<Longrightarrow> heap s r = Some (Entity e) \<Longrightarrow> kind e = ParticleCloud \<Longrightarrow>
   run (add_particles E i) s = Inr (with_particles E r e 1 s)"
  by (simp add: add_particles_def ChRandom_def AddParticle_def update_def deref_def update_at_def
      on_entity_def with_particles_def random_particle_def)

lemma add_particles_run:
  "vars s ''particles'' = Some r \<Longrightarrow> heap s r = Some (Entity e) \<Longrightarrow> kind e = ParticleCloud \<Longrightarrow>
   run (for_range n (add_particles E)) s = Inr (with_particles E r e n s)"
proof (induction n)
  case 0
  have "s\<lparr>heap := (heap s)(r \<mapsto> Entity e)\<rparr> = s"
    using 0(2) by (simp add: fun_upd_idem)
  then show ?case by (simp add: for_range_def with_particles_def)
next
  case (Suc n)
  let ?s = "with_particles E r e n s"
  let ?e = "e\<lparr>particles := particles e @
      map (\<lambda>k. random_particle E (random_calls s + 2 * k)) [0..<n]\<rparr>"
  have "run (for_range (Suc n) (add_particles E)) s = run (add_particles E n) ?s"
    using Suc by (simp add: for_range_def run_append)
  also have "\<dots> = Inr (with_particles E r ?e 1 ?s)"
    using Suc.prems by (intro add_particle_step) (simp_all add: with_particles_def)
  also have "with_particles E r ?e 1 ?s = with_particles E r e (Suc n) s"
    by (simp add: with_particles_def)
  finally show ?case .
qed

lemmas step_defs = new_def deref_def update_at_def update_def update_with_def on_entity_def on_shape_def
  on_vis_def emit_def Print_def ChSystemNSC_def SetCollisionSystemType_def 
  ChBodyEasyConvexHullAuxRef_def ChRandom_def new_shape_def new_entity_def new_visual_system_def
  sys_Add_def AddVisualShape_def api_defs

lemmas eval_rules = run.simps run_append start_def step_defs
  sum.case option.case prod.case obj.case geometry.case line.case list.case entity_kind.case
  option.map option.inject option.distinct obj.inject obj.distinct entity_kind.distinct entity_kind.inject
  if_True if_False simp_thms fun_upd_apply Let_def
  state.select_convs state.update_convs entity.select_convs entity.update_convs
  visual_shape.select_convs visual_shape.update_convs visual_material.select_convs visual_material.update_convs
  visual_system.select_convs visual_system.update_convs
  list.inject list.distinct char.inject
  arith_simps rel_simps numeral_plus_one one_plus_numeral add_0 add_0_right one_add_one zero_neq_one one_neq_zero
  list.set insert_iff empty_iff append.simps
  is_collision_shape.simps is_visual_shape.simps is_visual_material.simps is_line.simps

lemma for_range_20: "for_range 20 body = body 0 @ body 1 @ body 2 @ body 3 @ body 4 @ body 5 @ body 6 @ body 7 @ body 8 @ body 9 @ body 10 @ body 11 @ body 12 @ body 13 @ body 14 @ body 15 @ body 16 @ body 17 @ body 18 @ body 19"
  by (simp add: for_range_def numeral_eq_Suc)

lemma run_append_Inr: "run cs s = Inr s1 \<Longrightarrow> run ds s1 = Inr s2 \<Longrightarrow> run (cs @ ds) s = Inr s2"
  by (simp add: run_append)

text \<open>
  The script runs to its end without an error. The addresses are those of the objects in
  creation order: the floor is 0, the body 10, the particle cloud 37 and the hull 42.
\<close>

lemma script_run:
  "\<exists>s0. run (script E) start = Inr s0 \<and> scene s0 = [0, 10, 37, 42] \<and>
     run_calls (vis s0) = 0 \<and>
     (\<exists>e. heap s0 0 = Some (Entity e) \<and> kind e = RigidBody \<and> fixed e) \<and>
     (\<exists>e. heap s0 10 = Some (Entity e) \<and> kind e = RigidBody \<and> fixed e) \<and>
     (\<exists>e. heap s0 42 = Some (Entity e) \<and> kind e \<noteq> ParticleCloud \<and> \<not> fixed e) \<and>
     heap s0 37 = Some (Entity (the_cloud E)) \<and>
     heap s0 39 = Some (CollisionShape (ChCollisionShapeSphere_obj 38 0.05)) \<and>
     heap s0 40 = Some (new_shape (Sphere 0.05)) \<and>
     registry s0 37 = [(40, None)] \<and>
     map fst (registry s0 0) = [3, 4, 9] \<and>
     map fst (registry s0 10) = [12, 13, 14, 15, 15, 15, 16] @ [17..<37] \<and>
     registry s0 42 = []"
  apply (unfold script_def example3_def)
  apply (rule exI)
  apply (rule conjI)
   apply (rule run_append_Inr)
    apply (simp only: prologue_def eval_rules)
   apply (rule run_append_Inr)
    apply (simp only: example1_def eval_rules)
   apply (rule run_append_Inr)
    apply (simp only: example2_def for_range_20 smallboxes_def eval_rules)
   apply (rule run_append_Inr)
    apply (rule run_append_Inr)
     apply (simp only: eval_rules)
    apply (rule run_append_Inr)
     apply (rule add_particles_run)
       apply (simp only: eval_rules)
      apply (simp only: eval_rules)
     apply (simp only: eval_rules)
    apply (simp only: with_particles_def vadd.simps eval_rules)
   apply (simp only: viewer_def eval_rules)
  apply (simp only: eval_rules is_entity.simps list.map fst_conv)
  apply (simp add: the_cloud_def new_shape_def upt_conv_Cons)
  done

section \<open>The entities during the loop\<close>

lemma same_but_pose_refl: "same_but_pose e e"
  by (simp add: same_but_pose_def)

lemma same_but_pose_trans: "same_but_pose e e' \<Longrightarrow> same_but_pose e' e'' \<Longrightarrow> same_but_pose e e''"
  unfolding same_but_pose_def
  by (cases e, cases e', cases e'') simp

lemma physics_entity:
  assumes "heap s r = Some (Entity e)"
  shows "\<exists>e'. heap (physics E dt s) r = Some (Entity e') \<and> same_but_pose e e'"
proof (cases "r \<in> set (scene s) \<and> \<not> fixed e")
  case True
  let ?e' = "e\<lparr>pose := ext_integrate E dt (world_of s) r None,
      particles := map (\<lambda>k. ext_integrate E dt (world_of s) r (Some k))
        [0..<length (particles e)]\<rparr>"
  from True assms have "heap (physics E dt s) r = Some (Entity ?e')"
    by (simp add: physics_def advance_def)
  moreover have "same_but_pose e ?e'" by (simp add: same_but_pose_def)
  ultimately show ?thesis by blast
next
  case False
  with assms have "heap (physics E dt s) r = Some (Entity e)"
    by (auto simp: physics_def advance_def)
  then show ?thesis using same_but_pose_refl by blast
qed

lemma physics_other:
  "\<not> is_entity (heap s r) \<Longrightarrow> heap (physics E dt s) r = heap s r"
proof (cases "heap s r")
  case None
  then show ?thesis by (simp add: physics_def)
next
  case (Some v)
  assume "\<not> is_entity (heap s r)"
  with Some show ?thesis by (cases v) (simp_all add: physics_def advance_def)
qed

lemma physics_scene: "scene ((physics E dt ^^ n) s) = scene s"
  by (induction n) (simp_all add: physics_def)

lemma physics_iter_entity:
  "heap s r = Some (Entity e) \<Longrightarrow>
   \<exists>e'. heap ((physics E dt ^^ n) s) r = Some (Entity e') \<and> same_but_pose e e'"
proof (induction n)
  case 0
  then show ?case using same_but_pose_refl by auto
next
  case (Suc n)
  then obtain e1 where e1: "heap ((physics E dt ^^ n) s) r = Some (Entity e1)"
    and sb: "same_but_pose e e1" by blast
  from physics_entity [OF e1, of E dt]
  obtain e2 where "heap (physics E dt ((physics E dt ^^ n) s)) r = Some (Entity e2)"
    and "same_but_pose e1 e2" by blast
  with sb show ?case using same_but_pose_trans by auto
qed

lemma physics_iter_other:
  "\<not> is_entity (heap s r) \<Longrightarrow> heap ((physics E dt ^^ n) s) r = heap s r"
  by (induction n) (simp_all add: physics_other)

lemma heap_after_frames: "heap (after_frames E n s) = heap ((physics E 0.01 ^^ n) s)"
  using same_world_after_frames [OF same_world_refl, of E n s] by (simp add: same_world_def)

lemma rendering_keeps_world:
  "\<exists>s1. run [BeginScene, Render, addStaticText txt rc, EndScene] s = Inr s1 \<and>
     heap s1 = heap s \<and> scene s1 = scene s \<and> registry s1 = registry s"
  by (simp add: BeginScene_def Render_def addStaticText_def EndScene_def emit_def)

lemma run_calls_after_frames: "run_calls (vis (after_frames E n s)) = run_calls (vis s) + n"
  by (induction n arbitrary: s) (simp_all add: after_frame_def Run_def)

text \<open>
  C8. The script ends without an error with four entities in the scene, and the loop starts
  from that state. The four statements of the loop body before the step leave the scene, the
  stored objects and the attachments as they are; a physics step changes at most the pose of
  an entity and the poses of its particles. So after \<open>n\<close> iterations the scene and the
  attachments are those of the start, the stored objects are those that \<open>n\<close> physics
  steps alone produce, and every entity of the scene differs from its start at most in pose.
\<close>

theorem entities_set_up_before_loop:
  "\<exists>s0. run (script E) start = Inr s0 \<and> demo E = simulation_loop E s0 \<and>
     scene s0 = [0, 10, 37, 42] \<and> (\<forall>r\<in>set (scene s0). is_entity (heap s0 r)) \<and>
     (\<forall>s. \<exists>s1. run [BeginScene, Render, addStaticText ''Hello World!'' (recti 50 60 150 80),
                     EndScene] s = Inr s1 \<and>
              heap s1 = heap s \<and> scene s1 = scene s \<and> registry s1 = registry s) \<and>
     (\<forall>dt s r e. heap s r = Some (Entity e) \<longrightarrow>
        (\<exists>e'. heap (physics E dt s) r = Some (Entity e') \<and> same_but_pose e e')) \<and>
     (\<forall>n. (\<forall>k<n. ext_Run E k) \<longrightarrow> simulation_loop E s0 = simulation_loop E (after_frames E n s0)) \<and>
     (\<forall>n. scene (after_frames E n s0) = scene s0 \<and>
          registry (after_frames E n s0) = registry s0 \<and>
          heap (after_frames E n s0) = heap ((physics E 0.01 ^^ n) s0) \<and>
          (\<forall>r\<in>set (scene s0). \<exists>e e'. heap s0 r = Some (Entity e) \<and>
             heap (after_frames E n s0) r = Some (Entity e') \<and> same_but_pose e e'))"
proof -
  from script_run [of E] obtain s0 where run: "run (script E) start = Inr s0"
    and sc: "scene s0 = [0, 10, 37, 42]" and rc: "run_calls (vis s0) = 0"
    and ents: "\<exists>e. heap s0 0 = Some (Entity e) \<and> kind e = RigidBody \<and> fixed e"
      "\<exists>e. heap s0 10 = Some (Entity e) \<and> kind e = RigidBody \<and> fixed e"
      "\<exists>e. heap s0 42 = Some (Entity e) \<and> kind e \<noteq> ParticleCloud \<and> \<not> fixed e"
      "heap s0 37 = Some (Entity (the_cloud E))"
    by blast
  have all_ents: "\<forall>r\<in>set (scene s0). is_entity (heap s0 r)"
    using sc ents by auto
  have d: "demo E = simulation_loop E s0"
    using run by (simp add: demo_def)
  have unroll: "\<forall>n. (\<forall>k<n. ext_Run E k) \<longrightarrow>
      simulation_loop E s0 = simulation_loop E (after_frames E n s0)"
    using simulation_loop_unroll [of _ E s0] by (simp add: rc)
  have kept: "\<forall>r\<in>set (scene s0). \<exists>e e'. heap s0 r = Some (Entity e) \<and>
      heap (after_frames E n s0) r = Some (Entity e') \<and> same_but_pose e e'" for n
  proof
    fix r assume "r \<in> set (scene s0)"
    with all_ents have "is_entity (heap s0 r)" by blast
    then obtain e where e: "heap s0 r = Some (Entity e)"
      by (cases "heap s0 r" rule: is_entity.cases) simp_all
    from physics_iter_entity [OF e, where E = E and dt = "0.01" and n = n]
    show "\<exists>e e'. heap s0 r = Some (Entity e) \<and>
        heap (after_frames E n s0) r = Some (Entity e') \<and> same_but_pose e e'"
      using e by (simp add: heap_after_frames)
  qed
  have c5: "\<forall>s. \<exists>s1. run [BeginScene, Render,
      addStaticText ''Hello World!'' (recti 50 60 150 80), EndScene] s = Inr s1 \<and>
      heap s1 = heap s \<and> scene s1 = scene s \<and> registry s1 = registry s"
    using rendering_keeps_world by blast
  have c6: "\<forall>dt s r e. heap s r = Some (Entity e) \<longrightarrow>
      (\<exists>e'. heap (physics E dt s) r = Some (Entity e') \<and> same_but_pose e e')"
    using physics_entity by blast
  have c8: "\<forall>n. scene (after_frames E n s0) = scene s0 \<and>
      registry (after_frames E n s0) = registry s0 \<and>
      heap (after_frames E n s0) = heap ((physics E 0.01 ^^ n) s0) \<and>
      (\<forall>r\<in>set (scene s0). \<exists>e e'. heap s0 r = Some (Entity e) \<and>
         heap (after_frames E n s0) r = Some (Entity e') \<and> same_but_pose e e')"
    using kept by (simp add: scene_after_frames registry_after_frames heap_after_frames)
  from run d sc all_ents c5 c6 unroll c8 show ?thesis by blast
qed

theorem entities_set_up_before_loop_witness:
  "\<exists>s0 s'. run (script (quiet_env 2)) start = Inr s0 \<and> length (scene s0) = 4 \<and>
     demo (quiet_env 2) = Some (Inr s') \<and> scene s' = scene s0"
proof -
  let ?E = "quiet_env 2"
  from entities_set_up_before_loop [of ?E] obtain s0
    where run: "run (script ?E) start = Inr s0" and d: "demo ?E = simulation_loop ?E s0"
      and sc: "scene s0 = [0, 10, 37, 42]"
      and unroll: "\<forall>n. (\<forall>k<n. ext_Run ?E k) \<longrightarrow>
        simulation_loop ?E s0 = simulation_loop ?E (after_frames ?E n s0)"
      and fr: "\<forall>n. scene (after_frames ?E n s0) = scene s0"
    by blast
  let ?s2 = "after_frames ?E 2 s0"
  have "\<forall>k<2. ext_Run ?E k" by (simp add: quiet_env_def)
  with unroll have "simulation_loop ?E s0 = simulation_loop ?E ?s2" by blast
  moreover have "\<not> fst (Run ?E ?s2)"
    using script_run [of ?E] run by (auto simp: Run_def run_calls_after_frames quiet_env_def)
  then have "simulation_loop ?E ?s2 = Some (Inr (snd (Run ?E ?s2)))"
    by (subst simulation_loop.simps) simp
  moreover have "scene (snd (Run ?E ?s2)) = scene s0"
    using fr by (simp add: Run_def)
  ultimately show ?thesis using run d sc by auto
qed

text \<open>
  C7. The script leaves one particle cloud in the scene. Every particle cloud of the scene has
  exactly one collision shape, exactly one visual shape, one mass and one inertia for all its
  members (a member is only a pose in the cloud's list), and its hundred member poses are the
  ones built from the random numbers at construction. After any number of loop iterations
  the cloud differs from this at most in its poses, and it is what the physics steps alone
  produce.
\<close>

theorem particle_cloud_shared:
  "\<exists>s0. run (script E) start = Inr s0 \<and>
     (\<exists>c. 37 \<in> set (scene s0) \<and> heap s0 37 = Some (Entity c) \<and> kind c = ParticleCloud) \<and>
     (\<forall>r\<in>set (scene s0). \<forall>c. heap s0 r = Some (Entity c) \<and> kind c = ParticleCloud \<longrightarrow>
        (\<exists>cs vs. collision_shapes c = [cs] \<and> registry s0 r = [vs]) \<and>
        mass c = Some 0.1 \<and> inertia c = Some (0.001, 0.001, 0.001) \<and>
        particles c = map (\<lambda>k. random_particle E (2 * k)) [0..<100] \<and>
        (\<forall>n. \<exists>c'. heap (after_frames E n s0) r = Some (Entity c') \<and> same_but_pose c c' \<and>
           registry (after_frames E n s0) r = registry s0 r \<and>
           heap (after_frames E n s0) r = heap ((physics E 0.01 ^^ n) s0) r))"
proof -
  from script_run [of E] obtain s0 where run: "run (script E) start = Inr s0"
    and sc: "scene s0 = [0, 10, 37, 42]"
    and others: "\<exists>e. heap s0 0 = Some (Entity e) \<and> kind e = RigidBody \<and> fixed e"
      "\<exists>e. heap s0 10 = Some (Entity e) \<and> kind e = RigidBody \<and> fixed e"
      "\<exists>e. heap s0 42 = Some (Entity e) \<and> kind e \<noteq> ParticleCloud \<and> \<not> fixed e"
    and cloud: "heap s0 37 = Some (Entity (the_cloud E))"
    and reg: "registry s0 37 = [(40, None)]"
    by blast
  have one: "\<exists>c. 37 \<in> set (scene s0) \<and> heap s0 37 = Some (Entity c) \<and> kind c = ParticleCloud"
    using sc cloud by (simp add: the_cloud_def)
  have every: "(\<exists>cs vs. collision_shapes c = [cs] \<and> registry s0 r = [vs]) \<and>
        mass c = Some 0.1 \<and> inertia c = Some (0.001, 0.001, 0.001) \<and>
        particles c = map (\<lambda>k. random_particle E (2 * k)) [0..<100] \<and>
        (\<forall>n. \<exists>c'. heap (after_frames E n s0) r = Some (Entity c') \<and> same_but_pose c c' \<and>
           registry (after_frames E n s0) r = registry s0 r \<and>
           heap (after_frames E n s0) r = heap ((physics E 0.01 ^^ n) s0) r)"
    if r: "r \<in> set (scene s0)" and c: "heap s0 r = Some (Entity c) \<and> kind c = ParticleCloud"
    for r c
  proof -
    from r sc others c have r37: "r = 37" by auto
    with c cloud have cc: "c = the_cloud E" by simp
    have a: "(\<exists>cs vs. collision_shapes c = [cs] \<and> registry s0 r = [vs]) \<and>
        mass c = Some 0.1 \<and> inertia c = Some (0.001, 0.001, 0.001)"
      using reg by (simp add: r37 cc the_cloud_def)
    have b: "particles c = map (\<lambda>k. random_particle E (2 * k)) [0..<100]"
      by (simp add: cc the_cloud_def)
    have d: "\<exists>c'. heap (after_frames E n s0) r = Some (Entity c') \<and> same_but_pose c c' \<and>
        registry (after_frames E n s0) r = registry s0 r \<and>
        heap (after_frames E n s0) r = heap ((physics E 0.01 ^^ n) s0) r" for n
      using physics_iter_entity [where s = s0 and r = r and e = c and E = E and dt = "0.01" and n = n] c
      by (simp add: heap_after_frames registry_after_frames)
    from a b d show ?thesis by blast
  qed
  from run one every show ?thesis by blast
qed

theorem particle_cloud_shared_witness:
  "\<exists>s0 c. run (script (quiet_env 0)) start = Inr s0 \<and> heap s0 37 = Some (Entity c) \<and>
     length (particles c) = 100 \<and> length (collision_shapes c) = 1 \<and>
     length (registry s0 37) = 1"
proof -
  from particle_cloud_shared [of "quiet_env 0"] obtain s0 c
    where run: "run (script (quiet_env 0)) start = Inr s0"
      and c: "37 \<in> set (scene s0)" "heap s0 37 = Some (Entity c)" "kind c = ParticleCloud"
      and every: "\<forall>r\<in>set (scene s0). \<forall>c. heap s0 r = Some (Entity c) \<and> kind c = ParticleCloud \<longrightarrow>
        (\<exists>cs vs. collision_shapes c = [cs] \<and> registry s0 r = [vs]) \<and>
        mass c = Some 0.1 \<and> inertia c = Some (0.001, 0.001, 0.001) \<and>
        particles c = map (\<lambda>k. random_particle (quiet_env 0) (2 * k)) [0..<100] \<and>
        (\<forall>n. \<exists>c'. heap (after_frames (quiet_env 0) n s0) r = Some (Entity c') \<and>
           same_but_pose c c' \<and>
           registry (after_frames (quiet_env 0) n s0) r = registry s0 r \<and>
           heap (after_frames (quiet_env 0) n s0) r =
             heap ((physics (quiet_env 0) 0.01 ^^ n) s0) r)"
    by blast
  from every c have "(\<exists>cs vs. collision_shapes c = [cs] \<and> registry s0 37 = [vs]) \<and>
      mass c = Some 0.1 \<and> inertia c = Some (0.001, 0.001, 0.001) \<and>
      particles c = map (\<lambda>k. random_particle (quiet_env 0) (2 * k)) [0..<100]"
    by blast
  then have "length (particles c) = 100 \<and> length (collision_shapes c) = 1 \<and>
      length (registry s0 37) = 1"
    by auto
  with run c show ?thesis by blast
qed

section \<open>Visual shapes are not written to once attached\<close>

lemma keeps_refl: "keeps s s"
  by (simp add: keeps_def)

lemma reads_cong: "heap s' a = heap s a \<Longrightarrow> reads s' a = reads s a"
  by (simp add: reads_def)

lemma keeps_frozen: 
  assumes "keeps s s'" 
  shows "frozen s \<subseteq> frozen s'"
proof
  fix x assume "x \<in> frozen s"
  then obtain a where a: "a \<in> attached s" and x: "x \<in> reads s a"
    by (auto simp: frozen_def)
  have "a \<in> reads s a" by (simp add: reads_def)
  with a have "a \<in> frozen s" by (auto simp: frozen_def)
  with assms have "heap s' a = heap s a" by (simp add: keeps_def)
  then have "reads s' a = reads s a" by (rule reads_cong)
  moreover from assms a have "a \<in> attached s'" by (auto simp: keeps_def)
  ultimately show "x \<in> frozen s'" using x by (auto simp: frozen_def)
qed

lemma keeps_trans:
  assumes "keeps s s'" and "keeps s' s''"
  shows "keeps s s''"
proof -
  from assms(1) have sub: "frozen s \<subseteq> frozen s'" by (rule keeps_frozen)
  have "heap s'' x = heap s x" if "x \<in> frozen s" for x
  proof -
    from that sub have "x \<in> frozen s'" by blast
    with assms(2) have "heap s'' x = heap s' x" by (simp add: keeps_def)
    also from assms(1) that have "heap s' x = heap s x" by (simp add: keeps_def)
    finally show ?thesis .
  qed
  moreover from assms have "attached s \<subseteq> attached s''" by (auto simp: keeps_def)
  ultimately show ?thesis by (simp add: keeps_def)
qed

lemma states_nonempty: "states cs s \<noteq> []"
  by (cases cs) simp_all

lemma states_hd: "states cs s ! 0 = s"
  by (cases cs) simp_all

lemma keeps_all_from_start:
  "keeps_all cs s \<Longrightarrow> j < length (states cs s) \<Longrightarrow> keeps s (states cs s ! j)"
proof (induction cs arbitrary: s j)
  case Nil
  then show ?case by (simp add: keeps_refl)
next
  case (Cons c cs)
  show ?case
  proof (cases j)
    case 0
    then show ?thesis by (simp add: keeps_refl)
  next
    case (Suc k)
    with Cons.prems(2) obtain s' where c: "c s = Inr s'" and k: "k < length (states cs s')"
      by (auto split: sum.splits)
    with Cons.prems(1) have "keeps s s'" and "keeps_all cs s'" by simp_all
    from Cons.IH [OF this(2) k] have "keeps s' (states cs s' ! k)" .
    with \<open>keeps s s'\<close> have "keeps s (states cs s' ! k)" by (rule keeps_trans)
    with Suc c show ?thesis by simp
  qed
qed

lemma keeps_all_between:
  "keeps_all cs s \<Longrightarrow> i \<le> j \<Longrightarrow> j < length (states cs s) \<Longrightarrow>
   keeps (states cs s ! i) (states cs s ! j)"
proof (induction cs arbitrary: s i j)
  case Nil
  then show ?case by (simp add: keeps_refl)
next
  case (Cons c cs)
  show ?case
  proof (cases i)
    case 0
    with Cons.prems show ?thesis
      using keeps_all_from_start [of "c # cs" s j] by simp
  next
    case (Suc i')
    with Cons.prems(2) obtain j' where j: "j = Suc j'" and le: "i' \<le> j'"
      by (cases j) simp_all
    with Cons.prems(3) obtain s' where c: "c s = Inr s'" and k: "j' < length (states cs s')"
      by (auto split: sum.splits)
    with Cons.prems(1) have "keeps_all cs s'" by simp
    from Cons.IH [OF this le k] show ?thesis using Suc j c by simp
  qed
qed

lemma keeps_all_append:
  "keeps_all (cs @ ds) s =
     (keeps_all cs s \<and> (case run cs s of Inl e \<Rightarrow> True | Inr s' \<Rightarrow> keeps_all ds s'))"
  by (induction cs arbitrary: s) (auto split: sum.splits)

lemma frozen_same:
  assumes "registry s' = registry s" and "\<forall>a\<in>attached s. heap s' a = heap s a"
  shows "frozen s' = frozen s"
proof -
  from assms(1) have att: "attached s' = attached s" by (simp add: attached_def)
  have rd: "reads s' a = reads s a" if "a \<in> attached s" for a
    using assms(2) that by (simp add: reads_def)
  show ?thesis
  proof (intro set_eqI iffI)
    fix x assume "x \<in> frozen s'"
    then obtain a where "a \<in> attached s'" and "x \<in> reads s' a"
      unfolding frozen_def by blast
    with att rd have "a \<in> attached s" and "x \<in> reads s a" by simp_all
    then show "x \<in> frozen s" unfolding frozen_def by blast
  next
    fix x assume "x \<in> frozen s"
    then obtain a where "a \<in> attached s" and "x \<in> reads s a"
      unfolding frozen_def by blast
    with att rd have "a \<in> attached s'" and "x \<in> reads s' a" by simp_all
    then show "x \<in> frozen s'" unfolding frozen_def by blast
  qed
qed

lemma attached_frozen: "attached s \<subseteq> frozen s"
  by (auto simp: frozen_def reads_def)

lemma step_keeps_noop:
  assumes "heap s' = heap s" and "registry s' = registry s"
  shows "step_keeps F s s' F"
proof -
  from assms have "frozen s' = frozen s" by (intro frozen_same) simp_all
  moreover from assms(2) have "attached s' = attached s" by (simp add: attached_def)
  ultimately show ?thesis using assms(1) by (simp add: step_keeps_def covers_def keeps_def)
qed

lemma step_keeps_writes:
  assumes h: "\<forall>x\<in>set F. heap s' x = heap s x" and r: "registry s' = registry s"
  shows "step_keeps F s s' F"
  unfolding step_keeps_def
proof (intro impI conjI)
  assume i: "covers F s"
  then have sub: "frozen s \<subseteq> set F" by (simp add: covers_def)
  with attached_frozen have att: "attached s \<subseteq> set F" by blast
  from r have same: "attached s' = attached s" by (simp add: attached_def)
  from h sub same show "keeps s s'" by (auto simp: keeps_def)
  from r h att have "frozen s' = frozen s" by (intro frozen_same) auto
  with i h show "covers F s'" by (simp add: covers_def)
qed

lemma step_keeps_write:
  assumes "heap s' = (heap s)(r \<mapsto> v)" and "registry s' = registry s" and "r \<notin> set F"
  shows "step_keeps F s s' F"
  using assms by (intro step_keeps_writes) auto

lemma step_keeps_write2:
  assumes "heap s' = (heap s)(r \<mapsto> v, r' \<mapsto> v')" and "registry s' = registry s"
    and "r \<notin> set F" and "r' \<notin> set F"
  shows "step_keeps F s s' F"
  using assms by (intro step_keeps_writes) auto

lemma attached_attach:
  "registry s' = (registry s)(q := registry s q @ [(a, fr)]) \<Longrightarrow>
   attached s' = insert a (attached s)"
  by (auto simp: attached_def split: if_splits)

lemma step_keeps_attach:
  assumes h: "heap s' = heap s"
    and r: "registry s' = (registry s)(q := registry s q @ [(a, fr)])"
    and ty: "\<forall>x\<in>set (a # refs_of (heap s a)). \<not> is_entity (heap s x)"
  shows "step_keeps F s s' (a # refs_of (heap s a) @ F)"
  unfolding step_keeps_def
proof (intro impI conjI)
  assume i: "covers F s"
  from r have att: "attached s' = insert a (attached s)" by (rule attached_attach)
  from h have rd: "reads s' b = reads s b" for b by (simp add: reads_def)
  from att h show "keeps s s'" by (auto simp: keeps_def)
  have "frozen s' = reads s a \<union> frozen s"
    by (simp add: frozen_def att rd)
  with i ty h show "covers (a # refs_of (heap s a) @ F) s'"
    by (auto simp: covers_def reads_def)
qed

lemma tracked_nil: "tracked F [] s F s"
  by (simp add: tracked_def)

lemma tracked_cons:
  assumes "c s = Inr s1" and "step_keeps F s s1 F1" and "tracked F1 cs s1 F' s'"
  shows "tracked F (c # cs) s F' s'"
  using assms by (simp add: tracked_def step_keeps_def)

lemma tracked_append:
  assumes "tracked F cs s F1 s1" and "tracked F1 ds s1 F' s'"
  shows "tracked F (cs @ ds) s F' s'"
  using assms by (simp add: tracked_def run_append keeps_all_append)

lemma tracked_state: "s = s2 \<Longrightarrow> tracked F cs s2 F' s' \<Longrightarrow> tracked F cs s F' s'"
  by simp

lemma okr_noop:
  "F1 = F \<Longrightarrow>
   step_keeps F \<lparr>vars = V, heap = H, next_ref = N, random_calls = C, collision_system = Y, scene = S,
         registry = R, vis = W, trace = T\<rparr>
        \<lparr>vars = V', heap = H, next_ref = N', random_calls = C', collision_system = Y',
         scene = S', registry = R, vis = W', trace = T'\<rparr> F1"
  by (simp add: step_keeps_noop)

lemma okr_write:
  "r \<notin> set F \<Longrightarrow> F1 = F \<Longrightarrow>
   step_keeps F \<lparr>vars = V, heap = H, next_ref = N, random_calls = C, collision_system = Y, scene = S,
         registry = R, vis = W, trace = T\<rparr>
        \<lparr>vars = V', heap = H(r \<mapsto> v), next_ref = N', random_calls = C', collision_system = Y',
         scene = S', registry = R, vis = W', trace = T'\<rparr> F1"
  by (simp add: step_keeps_write)

lemma okr_write2:
  "r \<notin> set F \<and> r' \<notin> set F \<Longrightarrow> F1 = F \<Longrightarrow>
   step_keeps F \<lparr>vars = V, heap = H, next_ref = N, random_calls = C, collision_system = Y, scene = S,
         registry = R, vis = W, trace = T\<rparr>
        \<lparr>vars = V', heap = H(r \<mapsto> v, r' \<mapsto> v'), next_ref = N', random_calls = C',
         collision_system = Y', scene = S', registry = R, vis = W', trace = T'\<rparr> F1"
  by (simp add: step_keeps_write2)


lemma okr_attach:
  assumes "xs \<noteq> [] \<and> butlast xs = R q \<and>
      (\<forall>x\<in>set (fst (last xs) # refs_of (H (fst (last xs)))). \<not> is_entity (H x))"
    and "F1 = fst (last xs) # refs_of (H (fst (last xs))) @ F"
  shows "step_keeps F \<lparr>vars = V, heap = H, next_ref = N, random_calls = C, collision_system = Y,
         scene = S, registry = R, vis = W, trace = T\<rparr>
        \<lparr>vars = V', heap = H, next_ref = N', random_calls = C', collision_system = Y',
         scene = S', registry = R(q := xs), vis = W', trace = T'\<rparr> F1"
proof -
  let ?s = "\<lparr>vars = V, heap = H, next_ref = N, random_calls = C, collision_system = Y,
         scene = S, registry = R, vis = W, trace = T\<rparr>"
  let ?s' = "\<lparr>vars = V', heap = H, next_ref = N', random_calls = C', collision_system = Y',
         scene = S', registry = R(q := xs), vis = W', trace = T'\<rparr>"
  let ?a = "fst (last xs)"
  from assms(1) have "xs = R q @ [(?a, snd (last xs))]"
    by (metis append_butlast_last_id prod.collapse)
  then have r: "registry ?s' = (registry ?s)(q := registry ?s q @ [(?a, snd (last xs))])"
    by simp
  have h: "heap ?s' = heap ?s" by simp
  from assms(1) have ty: "\<forall>x\<in>set (?a # refs_of (heap ?s ?a)). \<not> is_entity (heap ?s x)"
    by simp
  from step_keeps_attach [OF h r ty, of F] assms(2) show ?thesis by simp
qed

lemmas track_rules = eval_rules butlast.simps last.simps refs_of.simps lines_of.simps fst_conv
  snd_conv is_entity.simps ball_simps vadd.simps

lemma covers_entity_free: "covers F s \<Longrightarrow> heap s r = Some (Entity e) \<Longrightarrow> r \<notin> set F"
  by (auto simp: covers_def)

lemma step_keeps_entity_write:
  assumes "heap s r = Some (Entity e)" and "heap s' = (heap s)(r \<mapsto> v)"
    and "registry s' = registry s"
  shows "step_keeps F s s' F"
  unfolding step_keeps_def
proof
  assume i: "covers F s"
  from i assms(1) have "r \<notin> set F" by (rule covers_entity_free)
  with assms(2,3) have "step_keeps F s s' F" by (rule step_keeps_write)
  with i show "keeps s s' \<and> covers F s'" by (simp add: step_keeps_def)
qed

lemma with_particles_heap:
  "heap (with_particles E r e n s) r =
     Some (Entity (e\<lparr>particles := particles e @
        map (\<lambda>k. random_particle E (random_calls s + 2 * k)) [0..<n]\<rparr>))"
  by (simp add: with_particles_def)

lemma with_particles_Suc:
  "with_particles E r (e\<lparr>particles := particles e @
       map (\<lambda>k. random_particle E (random_calls s + 2 * k)) [0..<n]\<rparr>) 1
     (with_particles E r e n s) = with_particles E r e (Suc n) s"
  by (simp add: with_particles_def)

lemma tracked_particles:
  assumes v: "vars s ''particles'' = Some r" and h: "heap s r = Some (Entity e)"
    and k: "kind e = ParticleCloud"
  shows "tracked F (for_range n (add_particles E)) s F (with_particles E r e n s)"
proof (induction n)
  case 0
  have "s\<lparr>heap := (heap s)(r \<mapsto> Entity e)\<rparr> = s"
    using h by (simp add: fun_upd_idem)
  then have "with_particles E r e 0 s = s" by (simp add: with_particles_def)
  then show ?case by (simp add: for_range_def tracked_nil)
next
  case (Suc n)
  let ?s = "with_particles E r e n s"
  let ?e = "e\<lparr>particles := particles e @
      map (\<lambda>k. random_particle E (random_calls s + 2 * k)) [0..<n]\<rparr>"
  have v': "vars ?s ''particles'' = Some r" using v by (simp add: with_particles_def)
  have h': "heap ?s r = Some (Entity ?e)" by (rule with_particles_heap)
  have k': "kind ?e = ParticleCloud" using k by simp
  have st: "run (add_particles E n) ?s = Inr (with_particles E r e (Suc n) s)"
    using add_particle_step [OF v' h' k', of E n] by (simp only: with_particles_Suc)
  have "step_keeps F ?s (with_particles E r e (Suc n) s) F"
    using h' by (rule step_keeps_entity_write) (simp_all add: with_particles_def)
  with st have "tracked F (add_particles E n) ?s F (with_particles E r e (Suc n) s)"
    by (auto simp: tracked_def step_keeps_def add_particles_def split: sum.splits)
  with Suc have "tracked F (for_range n (add_particles E) @ add_particles E n) s F
      (with_particles E r e (Suc n) s)"
    by (rule tracked_append)
  then show ?case by (simp add: for_range_def)
qed

lemma script_tracked: "\<exists>F' s'. tracked [] (script E) start F' s'"
  apply (intro exI)
  apply (rule tracked_state)
   apply (simp only: start_def new_visual_system_def)
  apply (unfold script_def example3_def)
  apply (rule tracked_append)
   apply (unfold prologue_def)
   apply ((rule tracked_cons, simp only: eval_rules,
      (rule okr_noop okr_write okr_write2 okr_attach; simp only: track_rules))+)
   apply (rule tracked_nil)
  apply (rule tracked_append)
   apply (unfold example1_def)
   apply ((rule tracked_cons, simp only: eval_rules,
      (rule okr_noop okr_write okr_write2 okr_attach; simp only: track_rules))+)
   apply (rule tracked_nil)
  apply (rule tracked_append)
   apply (simp only: example2_def for_range_20 smallboxes_def Let_def append.simps)
   apply ((rule tracked_cons, simp only: eval_rules,
      (rule okr_noop okr_write okr_write2 okr_attach; simp only: track_rules))+)
   apply (rule tracked_nil)
  apply (rule tracked_append)
   apply (rule tracked_append)
    apply ((rule tracked_cons, simp only: eval_rules,
      (rule okr_noop okr_write okr_write2 okr_attach; simp only: track_rules))+)
    apply (rule tracked_nil)
   apply (rule tracked_append)
    apply (rule tracked_particles)
      apply (simp only: eval_rules)
     apply (simp only: eval_rules)
    apply (simp only: eval_rules)
   apply (rule tracked_state)
    apply (simp only: with_particles_def eval_rules)
   apply (simp only: Let_def append.simps)
   apply ((rule tracked_cons, simp only: eval_rules,
      (rule okr_noop okr_write okr_write2 okr_attach; simp only: track_rules))+)
   apply (rule tracked_nil)
  apply (unfold viewer_def)
  apply ((rule tracked_cons, simp only: eval_rules,
      (rule okr_noop okr_write okr_write2 okr_attach; simp only: track_rules))+)
  apply (rule tracked_nil)
  done

lemma iteration_run: "run (iteration E) s = Inr (after_frame E (snd (Run E s)))"
  by (simp add: iteration_def frame_run)

lemma iterations_run: "run (concat (replicate n (iteration E))) s = Inr (after_frames E n s)"
  by (induction n arbitrary: s) (simp_all add: run_append iteration_run)

lemma step_keeps_physics: "step_keeps F s (emit ev (physics E dt s)) F"
  unfolding step_keeps_def
proof
  assume i: "covers F s"
  then have "\<forall>x\<in>set F. heap (emit ev (physics E dt s)) x = heap s x"
    by (simp add: covers_def emit_def physics_other)
  moreover have "registry (emit ev (physics E dt s)) = registry s"
    by (simp add: emit_def physics_def)
  ultimately have "step_keeps F s (emit ev (physics E dt s)) F" by (rule step_keeps_writes)
  with i show "keeps s (emit ev (physics E dt s)) \<and> covers F (emit ev (physics E dt s))"
    by (simp add: step_keeps_def)
qed

lemma tracked_iteration: "tracked F (iteration E) s F (after_frame E (snd (Run E s)))"
proof -
  let ?s1 = "snd (Run E s)"
  let ?s2 = "emit FrameBegin (?s1\<lparr>vis := (vis ?s1)\<lparr>in_scene := True\<rparr>\<rparr>)"
  let ?s3 = "emit (FrameRendered (world_of ?s2)) ?s2"
  let ?s4 = "emit (WidgetAdded hello) (?s3\<lparr>vis := (vis ?s3)\<lparr>gui := gui (vis ?s3) @ [hello]\<rparr>\<rparr>)"
  let ?s5 = "emit FrameEnd (?s4\<lparr>vis := (vis ?s4)\<lparr>in_scene := False\<rparr>\<rparr>)"
  let ?s6 = "emit (PhysicsStepped 0.01) (physics E 0.01 ?s5)"
  have k1: "step_keeps F s ?s1 F" by (rule step_keeps_noop) (simp_all add: Run_def)
  have k2: "step_keeps F ?s1 ?s2 F" by (rule step_keeps_noop) (simp_all add: emit_def)
  have k3: "step_keeps F ?s2 ?s3 F" by (rule step_keeps_noop) (simp_all add: emit_def)
  have k4: "step_keeps F ?s3 ?s4 F" by (rule step_keeps_noop) (simp_all add: emit_def)
  have k5: "step_keeps F ?s4 ?s5 F" by (rule step_keeps_noop) (simp_all add: emit_def)
  have k6: "step_keeps F ?s5 ?s6 F" by (rule step_keeps_physics)
  have "tracked F (iteration E) s F ?s6"
    unfolding iteration_def frame_def
    by (rule tracked_cons [OF _ k1] tracked_cons [OF _ k2] tracked_cons [OF _ k3]
        tracked_cons [OF _ k4] tracked_cons [OF _ k5] tracked_cons [OF _ k6] tracked_nil
        | simp add: BeginScene_def Render_def addStaticText_def EndScene_def DoStepDynamics_def
            hello_def)+
  moreover from this have "run (iteration E) s = Inr ?s6" by (simp add: tracked_def)
  then have "?s6 = after_frame E ?s1" by (simp add: iteration_run)
  ultimately show ?thesis by simp
qed

lemma tracked_iterations:
  "tracked F (concat (replicate n (iteration E))) s F (after_frames E n s)"
proof (induction n arbitrary: s)
  case 0
  then show ?case by (simp add: tracked_nil)
next
  case (Suc n)
  have "tracked F (iteration E @ concat (replicate n (iteration E))) s F
      (after_frames E n (after_frame E (snd (Run E s))))"
    using tracked_iteration Suc by (rule tracked_append)
  then show ?case by simp
qed

lemma covers_start: "covers [] start"
  by (simp add: covers_def frozen_def attached_def start_def)

lemma program_keeps_all: "keeps_all (script E @ concat (replicate n (iteration E))) start"
proof -
  from script_tracked [of E] obtain F s0 where "tracked [] (script E) start F s0" by blast
  then have "tracked [] (script E @ concat (replicate n (iteration E))) start F
      (after_frames E n s0)"
    using tracked_iterations by (rule tracked_append)
  with covers_start show ?thesis by (simp add: tracked_def)
qed

text \<open>
  C6. Take any two states \<open>i \<le> j\<close> that the program passes (during the script or during
  any number of loop iterations) and any shape \<open>a\<close> that is attached in state \<open>i\<close>. Every
  cell that a render of \<open>a\<close> reads in state \<open>i\<close> (the shape object, its materials and its
  line geometries) holds the same value in state \<open>j\<close>, and \<open>a\<close> is still attached. Since
  attachments hold the address of the shape, all attachments of one shared shape see this one
  unchanged object.
\<close>

theorem shapes_immutable_once_attached:
  assumes "i \<le> j" and "j < length (history E n)"
    and "a \<in> attached (history E n ! i)" and "x \<in> reads (history E n ! i) a"
  shows "heap (history E n ! j) x = heap (history E n ! i) x \<and>
         a \<in> attached (history E n ! j)"
proof -
  from program_keeps_all assms(1,2) have "keeps (history E n ! i) (history E n ! j)"
    unfolding history_def by (rule keeps_all_between)
  moreover from assms(3,4) have "x \<in> frozen (history E n ! i)"
    by (auto simp: frozen_def)
  ultimately show ?thesis using assms(3) by (auto simp: keeps_def)
qed

lemma states_length: "run cs s = Inr s' \<Longrightarrow> length (states cs s) = Suc (length cs)"
  by (induction cs arbitrary: s) (auto split: sum.splits)

lemma states_nth:
  "k \<le> length cs \<Longrightarrow> run (take k cs) s = Inr sk \<Longrightarrow> states cs s ! k = sk"
proof (induction cs arbitrary: k s)
  case Nil
  then show ?case by simp
next
  case (Cons c cs)
  show ?case
  proof (cases k)
    case 0
    with Cons.prems show ?thesis by simp
  next
    case (Suc k')
    with Cons.prems(2) obtain s1 where c: "c s = Inr s1" and r: "run (take k' cs) s1 = Inr sk"
      by (auto split: sum.splits)
    from Cons.prems(1) Suc have "k' \<le> length cs" by simp
    from Cons.IH [OF this r] show ?thesis using Suc c by simp
  qed
qed

lemma program_run:
  "\<exists>s'. run (script E @ concat (replicate n (iteration E))) start = Inr s'"
  using script_run [of E] by (auto simp: run_append iterations_run)

theorem shapes_immutable_once_attached_witness:
  "13 \<le> length (history (quiet_env 2) 2) - 1 \<and>
   3 \<in> attached (history (quiet_env 2) 2 ! 13) \<and>
   heap (history (quiet_env 2) 2 ! (length (history (quiet_env 2) 2) - 1)) 3 =
     heap (history (quiet_env 2) 2 ! 13) 3"
proof -
  let ?E = "quiet_env 2"
  let ?cs = "script ?E @ concat (replicate 2 (iteration ?E))"
  let ?H = "history ?E 2"
  have "\<exists>s13. run (prologue @ take 10 example1) start = Inr s13 \<and>
      registry s13 0 = [(3, Some (ChFrameD (0, - 1, 0) QUNIT))]"
    by (simp add: prologue_def example1_def start_def step_defs)
  then obtain s13 where r13: "run (prologue @ take 10 example1) start = Inr s13"
    and reg: "registry s13 0 = [(3, Some (ChFrameD (0, - 1, 0) QUNIT))]"
    by blast
  have tk: "take 13 ?cs = prologue @ take 10 example1"
    by (simp add: script_def prologue_def example1_def)
  from program_run [of ?E 2] obtain s' where "run ?cs start = Inr s'" by blast
  then have len: "length ?H = Suc (length ?cs)"
    unfolding history_def by (rule states_length)
  have long: "13 \<le> length ?cs"
    by (simp add: script_def prologue_def example1_def)
  have h13: "?H ! 13 = s13"
    unfolding history_def using long r13 by (intro states_nth) (simp_all only: tk)
  have a: "3 \<in> attached (?H ! 13)"
    using reg by (auto simp: h13 attached_def intro!: exI [of _ 0])
  have x: "3 \<in> reads (?H ! 13) 3" by (simp add: reads_def)
  have ij: "13 \<le> length ?H - 1" "length ?H - 1 < length ?H"
    using len long by simp_all
  from shapes_immutable_once_attached [OF ij a x] ij(1) a show ?thesis by blast
qed

text \<open>
  The property belongs to this script, not to the engine's interface: a script that sets the
  colour of a shape after attaching it does not keep its attached shapes.
\<close>

lemma mutation_is_caught:
  "\<not> keeps_all [ChBody ''b'', sys_Add ''b'', ChVisualShapeBox ''x'' 1 1 1,
      AddVisualShape ''b'' ''x'' None, SetColor ''x'' (ChColor 1 0 0)] start"
  by (simp add: start_def step_defs keeps_def frozen_def attached_def reads_def)

end
